theory Spec2Isabelle
  imports Main "HOL-Library.Sublist"
begin

section \<open>Go strings: the library functions used by \<open>funcbench/env.go\<close>\<close>

text \<open>
  A Go string is a sequence of bytes; \<^typ>\<open>string\<close> (a list of 8-bit characters) is
  used for it. The functions below are the ones of package \<open>strings\<close> and
  \<open>unicode/utf8\<close> that \<open>formatCommentToMD\<close> calls, written after the Go
  standard library.
\<close>

abbreviation nl :: char where
  "nl \<equiv> CHR 0x0A"

text \<open>\<open>strings.Index\<close>: the position of the first occurrence, or \<open>-1\<close>.\<close>

fun Index :: "string \<Rightarrow> string \<Rightarrow> int" where
  "Index [] substr = (if substr = [] then 0 else - 1)"
| "Index (c # cs) substr =
     (if prefix substr (c # cs) then 0
      else (let r = Index cs substr in if r < 0 then - 1 else r + 1))"

text \<open>\<open>strings.Contains(s, substr)\<close> is \<open>Index(s, substr) >= 0\<close>.\<close>

definition Contains :: "string \<Rightarrow> string \<Rightarrow> bool" where
  "Contains s substr = (0 \<le> Index s substr)"

text \<open>
  \<open>strings.Split(s, sep)\<close> for a separator of one byte (the source splits at
  \<open>"\n"\<close>): the pieces between the separators, one more than there are separators.
\<close>

fun Split :: "string \<Rightarrow> char \<Rightarrow> string list" where
  "Split [] sep = [[]]"
| "Split (c # cs) sep =
     (if c = sep then [] # Split cs sep
      else (case Split cs sep of
              [] \<Rightarrow> [[c]]
            | w # ws \<Rightarrow> (c # w) # ws))"

text \<open>\<open>strings.Join(elems, sep)\<close>.\<close>

fun Join :: "string list \<Rightarrow> string \<Rightarrow> string" where
  "Join [] sep = []"
| "Join [x] sep = x"
| "Join (x # y # ys) sep = x @ sep @ Join (y # ys) sep"

subsection \<open>UTF-8 decoding and Unicode white space\<close>

definition RuneError :: nat where
  "RuneError = 0xFFFD"

text \<open>
  \<open>utf8.DecodeRuneInString\<close>: the first code point of the string and its width in
  bytes; an invalid or truncated encoding yields \<open>(RuneError, 1)\<close>. The lead byte
  fixes the width and the range accepted for the second byte (the tables \<open>first\<close>
  and \<open>acceptRanges\<close> of the library).
\<close>

fun DecodeRuneInString :: "string \<Rightarrow> nat \<times> nat" where
  "DecodeRuneInString [] = (RuneError, 0)"
| "DecodeRuneInString (c0 # rest) =
     (let s0 = (of_char c0 :: nat) in
      if s0 < 0x80 then (s0, 1)
      else if s0 < 0xC2 \<or> 0xF4 < s0 then (RuneError, 1)
      else
        (let sz = (if s0 < 0xE0 then 2 else if s0 < 0xF0 then 3 else (4::nat));
             lo = (if s0 = 0xE0 then 0xA0 else if s0 = 0xF0 then 0x90 else (0x80::nat));
             hi = (if s0 = 0xED then 0x9F else if s0 = 0xF4 then 0x8F else (0xBF::nat))
         in
         if length (c0 # rest) < sz then (RuneError, 1)
         else
           (let s1 = (of_char (rest ! 0) :: nat) in
            if s1 < lo \<or> hi < s1 then (RuneError, 1)
            else if sz \<le> 2 then ((s0 mod 0x20) * 0x40 + s1 mod 0x40, 2)
            else
              (let s2 = (of_char (rest ! 1) :: nat) in
               if s2 < 0x80 \<or> 0xBF < s2 then (RuneError, 1)
               else if sz \<le> 3 then
                 ((s0 mod 0x10) * 0x1000 + (s1 mod 0x40) * 0x40 + s2 mod 0x40, 3)
               else
                 (let s3 = (of_char (rest ! 2) :: nat) in
                  if s3 < 0x80 \<or> 0xBF < s3 then (RuneError, 1)
                  else
                    ((s0 mod 0x08) * 0x40000 + (s1 mod 0x40) * 0x1000
                       + (s2 mod 0x40) * 0x40 + s3 mod 0x40, 4))))))"

text \<open>
  \<open>unicode.IsSpace\<close>: in Latin-1 the characters
  \<open>\t \n \v \f \r\<close>, space, U+0085 and U+00A0; above Latin-1 the code points with the
  property White\_Space.
\<close>

definition IsSpace :: "nat \<Rightarrow> bool" where
  "IsSpace r =
     (if r \<le> 0xFF then r \<in> {0x09, 0x0A, 0x0B, 0x0C, 0x0D, 0x20, 0x85, 0xA0}
      else (r = 0x1680 \<or> (0x2000 \<le> r \<and> r \<le> 0x200A) \<or> r = 0x2028 \<or> r = 0x2029
            \<or> r = 0x202F \<or> r = 0x205F \<or> r = 0x3000))"

text \<open>
  What \<open>for end, rune := range s\<close> enumerates: each code point with the bytes it
  was decoded from.
\<close>

function runes :: "string \<Rightarrow> (nat \<times> string) list" where
  "runes [] = []"
| "runes (c # cs) =
     (case DecodeRuneInString (c # cs) of
        (r, n) \<Rightarrow> (r, take n (c # cs)) # runes (drop n (c # cs)))"
  by pat_completeness auto
termination
proof (relation "measure length")
  show "wf (measure length)" by simp
next
  fix c :: char and cs :: string and r n :: nat
  assume d: "(r, n) = DecodeRuneInString (c # cs)"
  have "1 \<le> snd (DecodeRuneInString (c # cs))"
    by (auto simp: Let_def)
  with d have "1 \<le> n"
    by (cases "DecodeRuneInString (c # cs)") auto
  then show "(drop n (c # cs), c # cs) \<in> measure length"
    by simp
qed

text \<open>
  \<open>strings.FieldsFunc\<close>: the loop over the runes of \<open>s\<close>. The third argument is
  the field being read (\<open>None\<close> where the library has \<open>start < 0\<close>); a rune that
  satisfies \<open>f\<close> closes it.
\<close>

fun FieldsLoop :: "(nat \<Rightarrow> bool) \<Rightarrow> (nat \<times> string) list \<Rightarrow> string option \<Rightarrow> string list" where
  "FieldsLoop f [] None = []"
| "FieldsLoop f [] (Some w) = [w]"
| "FieldsLoop f ((r, bs) # rs) None =
     (if f r then FieldsLoop f rs None else FieldsLoop f rs (Some bs))"
| "FieldsLoop f ((r, bs) # rs) (Some w) =
     (if f r then w # FieldsLoop f rs None else FieldsLoop f rs (Some (w @ bs)))"

definition FieldsFunc :: "string \<Rightarrow> (nat \<Rightarrow> bool) \<Rightarrow> string list" where
  "FieldsFunc s f = FieldsLoop f (runes s) None"

text \<open>\<open>strings.Fields(s)\<close> splits \<open>s\<close> around runs of white space.\<close>

definition Fields :: "string \<Rightarrow> string list" where
  "Fields s = FieldsFunc s IsSpace"

section \<open>The markdown transformer (\<open>formatCommentToMD\<close>)\<close>

text \<open>
  A line is a header line when one of the four \<open>strings.Contains\<close> cases of the
  \<open>switch\<close> applies to it.
\<close>

definition isHeader :: "string \<Rightarrow> bool" where
  "isHeader e =
     (Contains e ''old ns/op'' \<or> Contains e ''old MB/s''
      \<or> Contains e ''old allocs'' \<or> Contains e ''old bytes'')"

text \<open>
  The \<open>switch\<close> of the loop body at index \<open>i\<close>: the new value of \<open>e\<close> and the new
  \<open>tableContent\<close>. A header case rebuilds the slice as
  \<open>append(tableContent[:i+1], append([]string{"|-|-|-|-|"}, tableContent[i+1:]...)...)\<close>;
  the inner \<open>append\<close> copies the tail first, so the result is the insertion of the row
  at \<open>i+1\<close>. The loop only calls it with \<open>i\<close> in range.
\<close>

definition switch :: "nat \<Rightarrow> string list \<Rightarrow> string \<times> string list" where
  "switch i tableContent =
     (let e = tableContent ! i in
      if e = [] then (e, tableContent)
      else if Contains e ''old ns/op'' then
        (''| Benchmark | Old ns/op | New ns/op | Delta |'',
         take (i + 1) tableContent @ ([''|-|-|-|-|''] @ drop (i + 1) tableContent))
      else if Contains e ''old MB/s'' then
        (''| Benchmark | Old MB/s | New MB/s | Speedup |'',
         take (i + 1) tableContent @ ([''|-|-|-|-|''] @ drop (i + 1) tableContent))
      else if Contains e ''old allocs'' then
        (''| Benchmark | Old allocs | New allocs | Delta |'',
         take (i + 1) tableContent @ ([''|-|-|-|-|''] @ drop (i + 1) tableContent))
      else if Contains e ''old bytes'' then
        (''| Benchmark | Old bytes | New bytes | Delta |'',
         take (i + 1) tableContent @ ([''|-|-|-|-|''] @ drop (i + 1) tableContent))
      else (Join (Fields e) ''|'', tableContent))"

text \<open>
  The loop \<open>for i := 0; i <= len(tableContent)-1; i++\<close>, with the assignment
  \<open>tableContent[i] = e\<close> that ends its body. The slice grows while the loop runs; the
  loop ends because an inserted row is never a header line.
\<close>

function formatLoop :: "nat \<Rightarrow> string list \<Rightarrow> string list" where
  "formatLoop i tableContent =
     (if int i \<le> int (length tableContent) - 1 then
        (case switch i tableContent of
           (e, tableContent') \<Rightarrow> formatLoop (i + 1) (tableContent'[i := e]))
      else tableContent)"
  by pat_completeness auto
termination
proof (relation "measure (\<lambda>(i, tc). 2 * length (filter isHeader (drop i tc)) + (length tc - i))")
  show "wf (measure (\<lambda>(i, tc). 2 * length (filter isHeader (drop i tc)) + (length tc - i)))"
    by simp
next
  fix i :: nat and tableContent tableContent' :: "string list" and e :: string
  assume le: "int i \<le> int (length tableContent) - 1"
    and sw: "(e, tableContent') = switch i tableContent"
  from le have i: "i < length tableContent" by simp
  have sep: "\<not> isHeader ''|-|-|-|-|''"
    by (simp add: isHeader_def Contains_def)
  have dr: "drop i tableContent = tableContent ! i # drop (Suc i) tableContent"
    using i by (simp add: Cons_nth_drop_Suc)
  have "snd (switch i tableContent) =
          (if isHeader (tableContent ! i)
           then take (i + 1) tableContent @ ([''|-|-|-|-|''] @ drop (i + 1) tableContent)
           else tableContent)"
    by (simp add: switch_def Let_def isHeader_def Contains_def)
  with sw have tc': "tableContent' =
          (if isHeader (tableContent ! i)
           then take (i + 1) tableContent @ ([''|-|-|-|-|''] @ drop (i + 1) tableContent)
           else tableContent)"
    by (metis snd_conv)
  have cnt: "length (filter isHeader (drop i tableContent)) =
          (if isHeader (tableContent ! i) then 1 else 0)
          + length (filter isHeader (drop (Suc i) tableContent))"
    by (subst dr) simp
  have "2 * length (filter isHeader (drop (i + 1) (tableContent'[i := e])))
          + (length (tableContent'[i := e]) - (i + 1))
        < 2 * length (filter isHeader (drop i tableContent)) + (length tableContent - i)"
  proof (cases "isHeader (tableContent ! i)")
    case True
    have "drop (Suc i) (tableContent'[i := e]) = ''|-|-|-|-|'' # drop (Suc i) tableContent"
      using i True by (simp add: tc' drop_update_cancel min_def)
    moreover have "length tableContent' = Suc (length tableContent)"
      using i True by (simp add: tc')
    ultimately show ?thesis
      using i True sep by (simp add: cnt)
  next
    case False
    then have "tableContent' = tableContent"
      by (simp add: tc')
    then show ?thesis
      using i False by (simp add: cnt drop_update_cancel)
  qed
  then show "((i + 1, tableContent'[i := e]), (i, tableContent))
        \<in> measure (\<lambda>(i, tc). 2 * length (filter isHeader (drop i tc)) + (length tc - i))"
    by simp
qed

definition formatCommentToMD :: "string \<Rightarrow> string" where
  "formatCommentToMD rawTable = Join (formatLoop 0 (Split rawTable nl)) [nl]"


declare formatLoop.simps [simp del]

subsection \<open>Notions used to state the properties\<close>

text \<open>
  What the \<open>switch\<close> assigns to \<open>e\<close> for a line \<open>e\<close>: the function is the \<open>switch\<close>
  of the source run on the single line.
\<close>

definition translate :: "string \<Rightarrow> string" where
  "translate e = fst (switch 0 [e])"

text \<open>The output rows a line gives rise to: its translation and, for a header line, the inserted row.\<close>

definition rows :: "string \<Rightarrow> string list" where
  "rows e = (if isHeader e then [translate e, ''|-|-|-|-|''] else [translate e])"

text \<open>
  The index, among the output lines, of the translation of input line \<open>i\<close>: every
  header line before it has pushed it down by one.
\<close>

definition outIndex :: "string list \<Rightarrow> nat \<Rightarrow> nat" where
  "outIndex ls i = i + length (filter isHeader (take i ls))"

text \<open>
  A line has text when it has a character that is not white space, that is, when
  \<open>strings.Fields\<close> finds a field in it; a blank line is one without text. A line is
  empty when the first case of the \<open>switch\<close> (\<open>e == ""\<close>) applies to it.
\<close>

definition hasText :: "string \<Rightarrow> bool" where
  "hasText e = (Fields e \<noteq> [])"

definition nonEmpty :: "string \<Rightarrow> bool" where
  "nonEmpty e = (e \<noteq> [])"

text \<open>A string that is not empty and whose first character is not white space.\<close>

definition startsWithText :: "string \<Rightarrow> bool" where
  "startsWithText f = (f \<noteq> [] \<and> \<not> IsSpace (fst (DecodeRuneInString f)))"

text \<open>The bytes a white space character is encoded with are ASCII white space or at least \<open>0x80\<close>.\<close>

definition spaceByte :: "char \<Rightarrow> bool" where
  "spaceByte b =
     ((of_char b :: nat) \<in> {0x09, 0x0A, 0x0B, 0x0C, 0x0D, 0x20} \<or> (0x80 :: nat) \<le> of_char b)"

section \<open>Environments (\<open>newLocalEnv\<close>, \<open>newGitHubEnv\<close>, \<open>PostErr\<close>)\<close>

subsection \<open>Errors\<close>

text \<open>
  The error values the code tells apart or builds: the three sentinel errors of go-git
  that matter here, \<open>errors.New\<close>, \<open>errors.Wrap\<close> (which keeps its cause), and any other
  error handed over by a library or the operating system, with its message.
\<close>

datatype error =
    ErrRepositoryAlreadyExists
  | ErrRepositoryNotExists
  | NoErrAlreadyUpToDate
  | ExternalError string
  | New string
  | Wrap error string

text \<open>The \<open>Error()\<close> text of an error, which \<open>%v\<close> prints.\<close>

fun Error :: "error \<Rightarrow> string" where
  "Error ErrRepositoryAlreadyExists = ''repository already exists''"
| "Error ErrRepositoryNotExists = ''repository does not exist''"
| "Error NoErrAlreadyUpToDate = ''already up-to-date''"
| "Error (ExternalError msg) = msg"
| "Error (New msg) = msg"
| "Error (Wrap err msg) = msg @ '': '' @ Error err"

text \<open>\<open>errors.Wrapf(err, format, pErr)\<close> with the one format string the code uses it with.\<close>

definition Wrapf_postComment :: "error \<Rightarrow> error \<Rightarrow> error" where
  "Wrapf_postComment err pErr =
     Wrap err (''posting a comment for `checkout` command execution error; postComment err:''
               @ Error pErr)"

text \<open>
  A call returns a value, returns an error, or panics (the nil pointer dereferences of
  \<open>*issue.GetRepo().Name\<close> and its like).
\<close>

datatype 'a outcome = Return 'a | Fail error | Panic

subsection \<open>Data\<close>

datatype Logger = LoggerHandle nat
datatype Repository = RepositoryHandle nat
datatype Worktree = WorktreeHandle nat
datatype Client = ClientWithToken string

record environment =
  logger :: Logger
  benchFunc :: string
  compareTarget :: string
  isRaceEnabled :: bool
  home :: string

definition BenchFunc :: "'a environment_scheme \<Rightarrow> string" where
  "BenchFunc e = benchFunc e"

definition CompareTarget :: "'a environment_scheme \<Rightarrow> string" where
  "CompareTarget e = compareTarget e"

definition IsRaceEnabled :: "'a environment_scheme \<Rightarrow> bool" where
  "IsRaceEnabled e = isRaceEnabled e"

text \<open>\<open>Local\<close> and \<open>GitHub\<close> embed \<open>environment\<close>.\<close>

record Local = environment +
  local_repo :: Repository

record gitHubClient =
  owner :: string
  repo :: string
  latestCommitHash :: string
  prNumber :: int
  client :: Client

record GitHub = environment +
  github_repo :: Repository
  github_client :: gitHubClient
  logLink :: string

text \<open>
  The part of \<open>github.IssueCommentEvent\<close> the code reads; every field is a pointer and
  may be nil.
\<close>

record User =
  Login :: "string option"

record GHRepository =
  Name :: "string option"
  Owner :: "User option"

record Issue =
  Number :: "int option"

record IssueCommentEvent =
  Repo :: "GHRepository option"
  Issue :: "Issue option"

text \<open>What \<open>github.ParseWebHook\<close> returns on success.\<close>

datatype event = IssueComment IssueCommentEvent | OtherEvent

subsection \<open>The outside world\<close>

text \<open>
  The file system, the process environment, git and the GitHub API answer the calls of
  the code. A \<open>world\<close> fixes these answers; the code is a function of it. Calls made
  once in a run (clone, worktree, fetch, checkout, comment) have one answer; \<open>dotGit\<close>
  tells which directories (a path is the list of its components, innermost first)
  hold a repository.
\<close>

record world =
  ioutil_ReadFile :: "string \<Rightarrow> error + string"
  os_Getenv :: "string \<Rightarrow> string"
  os_Chdir :: "string \<Rightarrow> error option"
  os_Setenv :: "string \<Rightarrow> string \<Rightarrow> error option"
  filepath_Join :: "string \<Rightarrow> string \<Rightarrow> string"
  filepath_Abs :: "string \<Rightarrow> string list"
  dotGit :: "string list \<Rightarrow> Repository option"
  github_ParseWebHook :: "string \<Rightarrow> string \<Rightarrow> error + event"
  git_PlainCloneContext :: "error + Repository"
  git_Worktree :: "error + Worktree"
  git_FetchContext :: "error option"
  git_Checkout :: "error option"
  Issues_CreateComment :: "error option"

text \<open>The calls with an effect, recorded in the order the code makes them.\<close>

datatype call =
    CallReadFile string
  | CallChdir string
  | CallSetenv string string
  | CallPlainClone string string
  | CallWorktree
  | CallFetch
  | CallCheckout string
  | CallCreateComment string string int string

definition did :: "call \<Rightarrow> call list \<times> 'a \<Rightarrow> call list \<times> 'a" where
  "did c k = (c # fst k, snd k)"

definition ret :: "'a \<Rightarrow> call list \<times> 'a" where
  "ret x = ([], x)"

subsection \<open>Local\<close>

text \<open>
  Modelled from the spec: \<open>git.PlainOpenWithOptions\<close> belongs to go-git and is not
  among the sources. The spec requires "the working directory or an ancestor to be
  version-controlled" and names the failure \<open>NotARepository\<close>; go-git documents
  \<open>DetectDotGit\<close> as walking the parent directories until a repository is found, and
  returns \<open>ErrRepositoryNotExists\<close> when there is none. So
  \<open>PlainOpenWithOptions(path, &PlainOpenOptions{DetectDotGit: detect})\<close> looks for a
  repository in the directory and, with \<open>detect\<close>, in each parent up to the root.
\<close>

fun walkDotGit :: "(string list \<Rightarrow> Repository option) \<Rightarrow> string list \<Rightarrow> Repository option" where
  "walkDotGit dg [] = dg []"
| "walkDotGit dg (d # ds) =
     (case dg (d # ds) of Some r \<Rightarrow> Some r | None \<Rightarrow> walkDotGit dg ds)"

definition PlainOpenWithOptions :: "world \<Rightarrow> string \<Rightarrow> bool \<Rightarrow> error + Repository" where
  "PlainOpenWithOptions w path detect =
     (case (if detect then walkDotGit (dotGit w) (filepath_Abs w path)
            else dotGit w (filepath_Abs w path)) of
        None \<Rightarrow> Inl ErrRepositoryNotExists
      | Some r \<Rightarrow> Inr r)"

definition newLocalEnv :: "world \<Rightarrow> environment \<Rightarrow> error + Local" where
  "newLocalEnv w e =
     (case PlainOpenWithOptions w ''.'' True of
        Inl err \<Rightarrow> Inl err
      | Inr r \<Rightarrow> Inr (environment.extend e (Local.fields r)))"

definition Local_PostErr :: "Local \<Rightarrow> string \<Rightarrow> error option" where
  "Local_PostErr l err = None"

definition Local_Repo :: "Local \<Rightarrow> Repository" where
  "Local_Repo l = local_repo l"

subsection \<open>GitHub\<close>

text \<open>\<open>%d\<close> of \<open>fmt.Sprintf\<close>.\<close>

fun digits :: "nat \<Rightarrow> string" where
  "digits n =
     (if n < 10 then [''0123456789'' ! n]
      else digits (n div 10) @ [''0123456789'' ! (n mod 10)])"

declare digits.simps [simp del]

definition Itoa :: "int \<Rightarrow> string" where
  "Itoa n = (if n < 0 then CHR ''-'' # digits (nat (- n)) else digits (nat n))"

text \<open>The dereferences \<open>*event.GetRepo().Name\<close>, \<open>*event.GetRepo().Owner.Login\<close> and
  \<open>*event.GetIssue().Number\<close>: \<open>None\<close> where Go panics.\<close>

definition deref_RepoName :: "IssueCommentEvent \<Rightarrow> string option" where
  "deref_RepoName event = Option.bind (Repo event) Name"

definition deref_OwnerLogin :: "IssueCommentEvent \<Rightarrow> string option" where
  "deref_OwnerLogin event = Option.bind (Option.bind (Repo event) Owner) Login"

definition deref_IssueNumber :: "IssueCommentEvent \<Rightarrow> int option" where
  "deref_IssueNumber event = Option.bind (Issue event) Number"

text \<open>\<open>newGitHubClient\<close> returns no error; \<open>None\<close> is a panic of one of its dereferences.\<close>

definition newGitHubClient :: "world \<Rightarrow> IssueCommentEvent \<Rightarrow> gitHubClient option" where
  "newGitHubClient w event =
     (case deref_OwnerLogin event of None \<Rightarrow> None | Some login \<Rightarrow>
      (case deref_RepoName event of None \<Rightarrow> None | Some name \<Rightarrow>
       (case deref_IssueNumber event of None \<Rightarrow> None | Some number \<Rightarrow>
          Some \<lparr>owner = login, repo = name,
                  latestCommitHash = os_Getenv w ''GITHUB_SHA'',
                  prNumber = number,
                  client = ClientWithToken (os_Getenv w ''GITHUB_TOKEN'')\<rparr>)))"

definition postComment :: "world \<Rightarrow> gitHubClient \<Rightarrow> string \<Rightarrow> call list \<times> error option" where
  "postComment w c comment =
     did (CallCreateComment (owner c) (repo c) (prNumber c) comment)
       (ret (Issues_CreateComment w))"

definition GitHub_PostErr :: "world \<Rightarrow> GitHub \<Rightarrow> string \<Rightarrow> call list \<times> error option" where
  "GitHub_PostErr w g err =
     (case postComment w (github_client g) (err @ ''. Logs: '' @ logLink g) of
        (calls, Some e) \<Rightarrow> (calls, Some (Wrap e ''posting err''))
      | (calls, None) \<Rightarrow> (calls, None))"

definition GitHub_Repo :: "GitHub \<Rightarrow> Repository" where
  "GitHub_Repo g = github_repo g"

text \<open>
  The end of \<open>newGitHubEnv\<close> (the fetch and the checkout of the pull request, each
  with the comment posted on its failure), for the environment \<open>g\<close> built before it.
\<close>

definition fetchAndCheckout :: "world \<Rightarrow> GitHub \<Rightarrow> IssueCommentEvent \<Rightarrow> call list \<times> GitHub outcome" where
  "fetchAndCheckout w g issue =
   did CallFetch
   (let err = git_FetchContext w in
    if err \<noteq> None \<and> err \<noteq> Some NoErrAlreadyUpToDate then
      (case GitHub_PostErr w g ''Switch (fetch) to a pull request branch failed'' of
         (calls, Some pErr) \<Rightarrow> (calls, Fail (Wrapf_postComment (the err) pErr))
       | (calls, None) \<Rightarrow> (calls, Fail (the err)))
    else
   (case deref_IssueNumber issue of None \<Rightarrow> ret Panic | Some number \<Rightarrow>
   did (CallCheckout (''pull/'' @ Itoa number @ ''/head:pullrequest''))
   (case git_Checkout w of
      Some err \<Rightarrow>
        (case GitHub_PostErr w g ''Switch to a pull request branch failed'' of
           (calls, Some pErr) \<Rightarrow> (calls, Fail (Wrapf_postComment err pErr))
         | (calls, None) \<Rightarrow> (calls, Fail err))
    | None \<Rightarrow> ret (Return g))))"

text \<open>
  \<open>newGitHubEnv\<close>, up to the worktree; \<open>fetchAndCheckout\<close> is its end. The context
  argument is not modelled.
\<close>

definition newGitHubEnv :: "world \<Rightarrow> Logger \<Rightarrow> string \<Rightarrow> call list \<times> GitHub outcome" where
  "newGitHubEnv w logger' eventFilePath =
   did (CallReadFile eventFilePath)
   (case ioutil_ReadFile w eventFilePath of Inl err \<Rightarrow> ret (Fail err) | Inr data \<Rightarrow>
   (case github_ParseWebHook w ''issue_comment'' data of Inl err \<Rightarrow> ret (Fail err) | Inr event \<Rightarrow>
   did (CallChdir (os_Getenv w ''GITHUB_WORKSPACE''))
   (case os_Chdir w (os_Getenv w ''GITHUB_WORKSPACE'') of Some err \<Rightarrow> ret (Fail err) | None \<Rightarrow>
   (case event of
      OtherEvent \<Rightarrow> ret (Fail (New ''only issue_comment event is supported''))
    | IssueComment issue \<Rightarrow>
   (case deref_RepoName issue of None \<Rightarrow> ret Panic | Some name \<Rightarrow>
   (case deref_OwnerLogin issue of None \<Rightarrow> ret Panic | Some login \<Rightarrow>
   did (CallPlainClone name (''https://github.com/'' @ login @ ''/'' @ name @ ''.git''))
   (case git_PlainCloneContext w of
      Inl err \<Rightarrow> ret (Fail (Wrap err ''git clone''))
    | Inr r \<Rightarrow>
   (case newGitHubClient w issue of None \<Rightarrow> ret Panic | Some ghClient \<Rightarrow>
   did (CallReadFile ''/github/home/commentMonitor/REGEX'')
   (case ioutil_ReadFile w ''/github/home/commentMonitor/REGEX'' of
      Inl err \<Rightarrow> ret (Fail err) | Inr benchFunc' \<Rightarrow>
   did (CallReadFile ''/github/home/commentMonitor/RACE'')
   (case ioutil_ReadFile w ''/github/home/commentMonitor/RACE'' of
      Inl err \<Rightarrow> ret (Fail err) | Inr raceArgument \<Rightarrow>
   did (CallReadFile ''/github/home/commentMonitor/BRANCH'')
   (case ioutil_ReadFile w ''/github/home/commentMonitor/BRANCH'' of
      Inl err \<Rightarrow> ret (Fail err) | Inr compareTarget' \<Rightarrow>
   did (CallChdir (filepath_Join w (os_Getenv w ''GITHUB_WORKSPACE'') (repo ghClient)))
   (case os_Chdir w (filepath_Join w (os_Getenv w ''GITHUB_WORKSPACE'') (repo ghClient)) of
      Some err \<Rightarrow> ret (Fail (Wrap err ''changing to GITHUB_WORKSPACE dir''))
    | None \<Rightarrow>
   (let g = \<lparr>logger = logger',
             benchFunc = benchFunc',
             compareTarget = compareTarget',
             isRaceEnabled = (raceArgument \<noteq> ''-no-race''),
             home = os_Getenv w ''HOME'',
             github_repo = r,
             github_client = ghClient,
             logLink = ''Full logs at: https://github.com/'' @ owner ghClient @ ''/''
                       @ repo ghClient @ ''/commit/'' @ latestCommitHash ghClient @ ''/checks''\<rparr>
    in
   did (CallSetenv ''GO111MODULE'' ''on'')
   (case os_Setenv w ''GO111MODULE'' ''on'' of Some err \<Rightarrow> ret (Fail err) | None \<Rightarrow>
   did (CallSetenv ''CGO_ENABLED'' ''0'')
   (case os_Setenv w ''CGO_ENABLED'' ''0'' of Some err \<Rightarrow> ret (Fail err) | None \<Rightarrow>
   did CallWorktree
   (case git_Worktree w of Inl err \<Rightarrow> ret (Fail err) | Inr wt \<Rightarrow>
   fetchAndCheckout w g issue))))))))))))))))"

section \<open>Notions used to state the properties of the environments, and example inputs\<close>

text \<open>A call that posts a comment.\<close>

definition isComment :: "call \<Rightarrow> bool" where
  "isComment c = (case c of CallCreateComment _ _ _ _ \<Rightarrow> True | _ \<Rightarrow> False)"

text \<open>A directory and its parents up to the root, nearest first.\<close>

fun ancestors :: "string list \<Rightarrow> string list list" where
  "ancestors [] = [[]]"
| "ancestors (d # ds) = (d # ds) # ancestors ds"

text \<open>
  A table as \<open>Render\<close> prints it, and a table whose second line is a single space
  (a blank line that is not empty).
\<close>

definition exampleTable :: string where
  "exampleTable =
     ''benchmark     old ns/op     new ns/op     delta'' @ [nl]
     @ ''BenchmarkX    120           60.2          -50.00%'' @ [nl]"

definition blankLineTable :: string where
  "blankLineTable = ''benchmark old ns/op new ns/op delta'' @ [nl] @ '' ''"

text \<open>
  A world in which every call succeeds: the event is a comment on pull request 42 of
  \<open>prometheus/test-infra\<close>, and the working directory \<open>/src/test-infra/funcbench\<close> lies
  in a repository at \<open>/src/test-infra\<close>.
\<close>

definition exampleEvent :: IssueCommentEvent where
  "exampleEvent =
     \<lparr>Repo = Some \<lparr>Name = Some ''test-infra'', Owner = Some \<lparr>Login = Some ''prometheus''\<rparr>\<rparr>,
      Issue = Some \<lparr>Number = Some 42\<rparr>\<rparr>"

definition exampleWorld :: world where
  "exampleWorld =
     \<lparr>ioutil_ReadFile =
        (\<lambda>p. if p = ''/github/workflow/event.json'' then Inr ''{}''
             else if p = ''/github/home/commentMonitor/REGEX'' then Inr ''BenchmarkX''
             else if p = ''/github/home/commentMonitor/RACE'' then Inr ''-no-race''
             else if p = ''/github/home/commentMonitor/BRANCH'' then Inr ''master''
             else Inl (ExternalError ''no such file or directory'')),
      os_Getenv =
        (\<lambda>k. if k = ''GITHUB_WORKSPACE'' then ''/github/workspace''
             else if k = ''HOME'' then ''/github/home''
             else if k = ''GITHUB_SHA'' then ''abc123''
             else if k = ''GITHUB_TOKEN'' then ''token''
             else []),
      os_Chdir = (\<lambda>p. None),
      os_Setenv = (\<lambda>k v. None),
      filepath_Join = (\<lambda>a b. a @ ''/'' @ b),
      filepath_Abs = (\<lambda>p. [''funcbench'', ''test-infra'', ''src'']),
      dotGit = (\<lambda>d. if d = [''test-infra'', ''src''] then Some (RepositoryHandle 1) else None),
      github_ParseWebHook = (\<lambda>t d. Inr (IssueComment exampleEvent)),
      git_PlainCloneContext = Inr (RepositoryHandle 0),
      git_Worktree = Inr (WorktreeHandle 0),
      git_FetchContext = None,
      git_Checkout = None,
      Issues_CreateComment = None\<rparr>"

text \<open>Variants of the example world: one call answers differently.\<close>

definition cloneExistsWorld :: world where
  "cloneExistsWorld = exampleWorld\<lparr>git_PlainCloneContext := Inl ErrRepositoryAlreadyExists\<rparr>"

definition fetchFailsWorld :: world where
  "fetchFailsWorld =
     exampleWorld\<lparr>git_FetchContext := Some (ExternalError ''connection refused''),
                   Issues_CreateComment := Some (ExternalError ''401 Bad credentials'')\<rparr>"

definition checkoutFailsWorld :: world where
  "checkoutFailsWorld = exampleWorld\<lparr>git_Checkout := Some (ExternalError ''reference not found'')\<rparr>"

definition upToDateWorld :: world where
  "upToDateWorld = exampleWorld\<lparr>git_FetchContext := Some NoErrAlreadyUpToDate\<rparr>"

definition raceWorld :: "string \<Rightarrow> world" where
  "raceWorld content =
     exampleWorld\<lparr>ioutil_ReadFile :=
       (ioutil_ReadFile exampleWorld)(''/github/home/commentMonitor/RACE'' := Inr content)\<rparr>"

definition noRepositoryWorld :: world where
  "noRepositoryWorld = exampleWorld\<lparr>dotGit := (\<lambda>d. None)\<rparr>"

definition exampleEnv :: environment where
  "exampleEnv =
     \<lparr>logger = LoggerHandle 0, benchFunc = ''BenchmarkX'', compareTarget = ''master'',
      isRaceEnabled = True, home = ''/home/user''\<rparr>"

definition exampleGitHub :: GitHub where
  "exampleGitHub =
     \<lparr>logger = LoggerHandle 0, benchFunc = ''BenchmarkX'', compareTarget = ''master'',
      isRaceEnabled = False, home = ''/github/home'',
      github_repo = RepositoryHandle 0,
      github_client =
        \<lparr>owner = ''prometheus'', repo = ''test-infra'', latestCommitHash = ''abc123'',
         prNumber = 42, client = ClientWithToken ''token''\<rparr>,
      logLink = ''Full logs at: https://github.com/prometheus/test-infra/commit/abc123/checks''\<rparr>"

definition exampleCalls :: "call list" where
  "exampleCalls =
     [CallReadFile ''/github/workflow/event.json'',
      CallChdir ''/github/workspace'',
      CallPlainClone ''test-infra'' ''https://github.com/prometheus/test-infra.git'',
      CallReadFile ''/github/home/commentMonitor/REGEX'',
      CallReadFile ''/github/home/commentMonitor/RACE'',
      CallReadFile ''/github/home/commentMonitor/BRANCH'',
      CallChdir ''/github/workspace/test-infra'',
      CallSetenv ''GO111MODULE'' ''on'',
      CallSetenv ''CGO_ENABLED'' ''0'',
      CallWorktree,
      CallFetch]"

section \<open>Lemmas on the string functions and on the loop\<close>

lemma Contains_Nil: "substr \<noteq> [] \<Longrightarrow> \<not> Contains [] substr"
  by (simp add: Contains_def)

lemma Index_ge: "- 1 \<le> Index s substr"
  by (induction s) (auto simp: Let_def)

lemma Contains_iff: "Contains s substr \<longleftrightarrow> (\<exists>a b. s = a @ substr @ b)"
proof (induction s)
  case Nil
  then show ?case by (auto simp: Contains_def)
next
  case (Cons c cs)
  show ?case
  proof (cases "prefix substr (c # cs)")
    case True
    then obtain b where "c # cs = substr @ b" by (auto simp: prefix_def)
    then have "c # cs = [] @ substr @ b" by simp
    then have "\<exists>a b. c # cs = a @ substr @ b" by blast
    with True show ?thesis by (simp add: Contains_def)
  next
    case False
    have "Contains (c # cs) substr \<longleftrightarrow> Contains cs substr"
      using False Index_ge [of cs substr] by (auto simp: Contains_def Let_def)
    also have "\<dots> \<longleftrightarrow> (\<exists>a b. cs = a @ substr @ b)" by (rule Cons.IH)
    also have "\<dots> \<longleftrightarrow> (\<exists>a b. c # cs = a @ substr @ b)"
    proof
      assume "\<exists>a b. cs = a @ substr @ b"
      then obtain a b where "cs = a @ substr @ b" by blast
      then have "c # cs = (c # a) @ substr @ b" by simp
      then show "\<exists>a b. c # cs = a @ substr @ b" by blast
    next
      assume "\<exists>a b. c # cs = a @ substr @ b"
      then obtain a b where ab: "c # cs = a @ substr @ b" by blast
      show "\<exists>a b. cs = a @ substr @ b"
      proof (cases a)
        case Nil
        with ab have "prefix substr (c # cs)" by (simp add: prefix_def)
        with False show ?thesis by simp
      next
        case (Cons x a')
        with ab have "cs = a' @ substr @ b" by simp
        then show ?thesis by blast
      qed
    qed
    finally show ?thesis .
  qed
qed

lemma Contains_set: "Contains s substr \<Longrightarrow> set substr \<subseteq> set s"
  by (auto simp: Contains_iff)

lemma isHeader_has_o: "isHeader e \<Longrightarrow> CHR ''o'' \<in> set e"
  by (auto simp: isHeader_def dest!: Contains_set)

lemma Split_nonempty: "Split s c \<noteq> []"
  by (induction s) (auto split: list.splits)

lemma Split_no_sep: "l \<in> set (Split s c) \<Longrightarrow> c \<notin> set l"
  by (induction s arbitrary: l) (auto split: list.splits if_splits)

lemma Join_Cons: "ls \<noteq> [] \<Longrightarrow> Join (l # ls) sep = l @ sep @ Join ls sep"
  by (cases ls) auto

lemma Split_append_sep:
  "c \<notin> set l \<Longrightarrow> Split (l @ c # s) c = l # Split s c"
  by (induction l) (auto split: list.splits)

lemma Split_no_sep_id: "c \<notin> set l \<Longrightarrow> Split l c = [l]"
  by (induction l) (auto split: list.splits)

lemma Split_Join:
  "ls \<noteq> [] \<Longrightarrow> (\<And>l. l \<in> set ls \<Longrightarrow> c \<notin> set l) \<Longrightarrow> Split (Join ls [c]) c = ls"
proof (induction ls)
  case Nil
  then show ?case by simp
next
  case (Cons l ls)
  show ?case
  proof (cases ls)
    case Nil
    with Cons.prems show ?thesis by (simp add: Split_no_sep_id)
  next
    case (Cons l' ls')
    then have "ls \<noteq> []" by simp
    with Cons.IH Cons.prems have "Split (Join ls [c]) c = ls" by simp
    with \<open>ls \<noteq> []\<close> Cons.prems show ?thesis
      by (simp add: Join_Cons Split_append_sep)
  qed
qed

lemma Join_Cons_Cons: "Join ((a # l) # ls) sep = a # Join (l # ls) sep"
  by (cases ls) auto

lemma Join_Split: "Join (Split s c) [c] = s"
  by (induction s) (auto split: list.splits simp: Join_Cons Join_Cons_Cons Split_nonempty)

lemma set_Join: "set (Join ls sep) \<subseteq> \<Union> (set ` set ls) \<union> set sep"
  by (induction ls sep rule: Join.induct) auto

lemma Join_eq_Nil: "[] \<notin> set ls \<Longrightarrow> Join ls sep = [] \<longleftrightarrow> ls = []"
  by (induction ls sep rule: Join.induct) auto

lemma DecodeRuneInString_width:
  "1 \<le> snd (DecodeRuneInString (c # cs)) \<and> snd (DecodeRuneInString (c # cs)) \<le> length (c # cs)"
  by (auto simp: Let_def Suc_le_eq)

lemma runes_concat: "concat (map snd (runes s)) = s"
  by (induction s rule: runes.induct) (auto split: prod.splits)

lemma runes_chunk_nonempty: "(r, bs) \<in> set (runes s) \<Longrightarrow> bs \<noteq> []"
proof (induction s rule: runes.induct)
  case 1
  then show ?case by simp
next
  case (2 c cs)
  obtain r' n where d: "DecodeRuneInString (c # cs) = (r', n)"
    by (cases "DecodeRuneInString (c # cs)")
  with DecodeRuneInString_width [of c cs] have "1 \<le> n" by simp
  with 2 d show ?case by (auto simp del: DecodeRuneInString.simps)
qed

lemma FieldsLoop_eq_Nil:
  "FieldsLoop f rs acc = [] \<longleftrightarrow> acc = None \<and> list_all (\<lambda>p. f (fst p)) rs"
  by (induction f rs acc rule: FieldsLoop.induct) auto

lemma FieldsLoop_concat:
  "concat (FieldsLoop f rs acc) =
     (case acc of None \<Rightarrow> [] | Some w \<Rightarrow> w) @ concat (map snd (filter (\<lambda>p. \<not> f (fst p)) rs))"
  by (induction f rs acc rule: FieldsLoop.induct) auto

lemma FieldsLoop_nonempty:
  "list_all (\<lambda>p. snd p \<noteq> []) rs \<Longrightarrow> acc \<noteq> Some [] \<Longrightarrow> [] \<notin> set (FieldsLoop f rs acc)"
  by (induction f rs acc rule: FieldsLoop.induct) auto

lemma Fields_eq_Nil: "Fields s = [] \<longleftrightarrow> list_all (\<lambda>p. IsSpace (fst p)) (runes s)"
  by (simp add: Fields_def FieldsFunc_def FieldsLoop_eq_Nil)

lemma Fields_concat:
  "concat (Fields s) = concat (map snd (filter (\<lambda>p. \<not> IsSpace (fst p)) (runes s)))"
  by (simp add: Fields_def FieldsFunc_def FieldsLoop_concat)

lemma Fields_nonempty: "[] \<notin> set (Fields s)"
proof -
  have "list_all (\<lambda>p. snd p \<noteq> []) (runes s)"
    using runes_chunk_nonempty [of _ _ s] by (auto simp: list_all_iff)
  then show ?thesis
    by (simp add: Fields_def FieldsFunc_def FieldsLoop_nonempty)
qed

lemma set_Fields: "f \<in> set (Fields s) \<Longrightarrow> set f \<subseteq> set s"
proof -
  assume "f \<in> set (Fields s)"
  then have "set f \<subseteq> set (concat (Fields s))" by auto
  also have "\<dots> \<subseteq> set (concat (map snd (runes s)))"
    unfolding Fields_concat by auto
  finally show ?thesis by (simp add: runes_concat)
qed

lemma not_IsSpace_RuneError: "\<not> IsSpace RuneError"
  by (simp add: IsSpace_def RuneError_def)

lemma DecodeRuneInString_cases:
  "DecodeRuneInString (c # cs) = (r, n) \<Longrightarrow>
     (n = 1 \<and> r = of_char c \<and> r < 0x80) \<or> (n = 1 \<and> r = RuneError)
     \<or> (1 < n \<and> n \<le> length (c # cs) \<and> (\<forall>b \<in> set (take n (c # cs)). (0x80 :: nat) \<le> of_char b))"
proof (cases cs)
  case Nil
  assume "DecodeRuneInString (c # cs) = (r, n)"
  with Nil show ?thesis by (auto simp: Let_def split: if_splits)
next
  case c1: (Cons b1 cs1)
  assume d: "DecodeRuneInString (c # cs) = (r, n)"
  show ?thesis
  proof (cases cs1)
    case Nil
    with c1 d show ?thesis by (auto simp: Let_def split: if_splits)
  next
    case c2: (Cons b2 cs2)
    show ?thesis
    proof (cases cs2)
      case Nil
      with c1 c2 d show ?thesis by (auto simp: Let_def split: if_splits)
    next
      case (Cons b3 cs3)
      with c1 c2 d show ?thesis by (auto simp: Let_def split: if_splits)
    qed
  qed
qed

lemma space_chunk_bytes:
  assumes "DecodeRuneInString (c # cs) = (r, n)" and "IsSpace r"
  shows "list_all spaceByte (take n (c # cs))"
proof -
  from DecodeRuneInString_cases [OF assms(1)] assms(2) not_IsSpace_RuneError
  consider "n = 1" "r = of_char c" "r < 0x80"
    | "1 < n" "\<forall>b \<in> set (take n (c # cs)). (0x80 :: nat) \<le> of_char b"
    by auto
  then show ?thesis
  proof cases
    case 1
    with assms(2) show ?thesis
      by (auto simp: IsSpace_def spaceByte_def split: if_splits)
  next
    case 2
    then show ?thesis
      by (simp add: list_all_iff spaceByte_def)
  qed
qed

lemma runes_space_bytes:
  "list_all (\<lambda>p. IsSpace (fst p)) (runes s) \<Longrightarrow> list_all spaceByte s"
proof (induction s rule: runes.induct)
  case 1
  then show ?case by simp
next
  case (2 c cs)
  obtain r n where d: "DecodeRuneInString (c # cs) = (r, n)"
    by (cases "DecodeRuneInString (c # cs)")
  from "2.prems" d have sp: "IsSpace r" and rest: "list_all (\<lambda>p. IsSpace (fst p)) (runes (drop n (c # cs)))"
    by (auto simp del: DecodeRuneInString.simps)
  from "2.IH" [OF d [symmetric] rest] have "list_all spaceByte (drop n (c # cs))" .
  moreover from space_chunk_bytes [OF d sp] have "list_all spaceByte (take n (c # cs))" .
  ultimately have "list_all spaceByte (take n (c # cs) @ drop n (c # cs))"
    by (simp only: list_all_append)
  then show ?case by (simp only: append_take_drop_id)
qed

lemma isHeader_Fields: "isHeader e \<Longrightarrow> Fields e \<noteq> []"
proof
  assume h: "isHeader e" and "Fields e = []"
  then have "list_all spaceByte e"
    by (simp add: Fields_eq_Nil runes_space_bytes)
  moreover from h have "CHR ''o'' \<in> set e" by (rule isHeader_has_o)
  ultimately have "spaceByte CHR ''o''" by (auto simp: list_all_iff)
  then show False by (simp add: spaceByte_def)
qed

lemma translate_eq:
  "translate e =
     (if e = [] then []
      else if Contains e ''old ns/op'' then ''| Benchmark | Old ns/op | New ns/op | Delta |''
      else if Contains e ''old MB/s'' then ''| Benchmark | Old MB/s | New MB/s | Speedup |''
      else if Contains e ''old allocs'' then ''| Benchmark | Old allocs | New allocs | Delta |''
      else if Contains e ''old bytes'' then ''| Benchmark | Old bytes | New bytes | Delta |''
      else Join (Fields e) ''|'')"
  by (simp add: translate_def switch_def)

lemma switch_fst: "fst (switch i tc) = translate (tc ! i)"
  by (simp add: translate_def switch_def Let_def)

lemma switch_snd:
  "snd (switch i tc) =
     (if isHeader (tc ! i) then take (Suc i) tc @ ''|-|-|-|-|'' # drop (Suc i) tc else tc)"
  by (simp add: switch_def Let_def isHeader_def Contains_def)

lemma sep_not_header: "\<not> isHeader ''|-|-|-|-|''"
  by (simp add: isHeader_def Contains_def)

lemma translate_sep: "translate ''|-|-|-|-|'' = ''|-|-|-|-|''"
  by (simp add: translate_eq Contains_def Fields_def FieldsFunc_def IsSpace_def)

lemma rows_sep: "rows ''|-|-|-|-|'' = [''|-|-|-|-|'']"
  by (simp only: rows_def sep_not_header translate_sep if_False)

lemma formatLoop_rows:
  "i \<le> length tc \<Longrightarrow> formatLoop i tc = take i tc @ concat (map rows (drop i tc))"
proof (induction i tc rule: formatLoop.induct)
  case (1 i tc)
  show ?case
  proof (cases "i < length tc")
    case False
    then have "formatLoop i tc = tc"
      by (simp add: formatLoop.simps [of i tc])
    moreover from False "1.prems" have "i = length tc" by simp
    ultimately show ?thesis by simp
  next
    case True
    then have guard: "int i \<le> int (length tc) - 1" by simp
    define e where "e = translate (tc ! i)"
    define tc' where "tc' = snd (switch i tc)"
    have sw: "(e, tc') = switch i tc"
      by (simp add: e_def tc'_def switch_fst [symmetric])
    have step: "formatLoop i tc = formatLoop (i + 1) (tc'[i := e])"
      using guard sw [symmetric] by (simp add: formatLoop.simps [of i tc])
    have dr: "drop i tc = tc ! i # drop (Suc i) tc"
      using True by (simp add: Cons_nth_drop_Suc)
    have len: "i + 1 \<le> length (tc'[i := e])"
      using True by (auto simp: tc'_def switch_snd)
    have tk: "take (i + 1) (tc'[i := e]) = take i tc @ [e]"
      using True by (simp add: tc'_def switch_snd take_Suc_conv_app_nth nth_append)
    have dp: "drop (i + 1) (tc'[i := e]) =
              (if isHeader (tc ! i) then ''|-|-|-|-|'' # drop (Suc i) tc else drop (Suc i) tc)"
      using True by (simp add: tc'_def switch_snd drop_update_cancel min_def)
    have "formatLoop i tc = take (i + 1) (tc'[i := e]) @ concat (map rows (drop (i + 1) (tc'[i := e])))"
      unfolding step using guard sw len by (rule "1.IH")
    also have "\<dots> = take i tc @ rows (tc ! i) @ concat (map rows (drop (Suc i) tc))"
      unfolding tk dp by (simp add: rows_def e_def sep_not_header translate_sep)
    also have "\<dots> = take i tc @ concat (map rows (drop i tc))"
      by (subst dr) simp
    finally show ?thesis .
  qed
qed

lemma formatLoop_0: "formatLoop 0 tc = concat (map rows tc)"
  using formatLoop_rows [of 0 tc] by simp

lemma translate_no_nl: "nl \<notin> set e \<Longrightarrow> nl \<notin> set (translate e)"
proof -
  assume e: "nl \<notin> set e"
  have "nl \<notin> set (Join (Fields e) ''|'')"
  proof
    assume "nl \<in> set (Join (Fields e) ''|'')"
    with set_Join [of "Fields e" "''|''"] obtain f where "f \<in> set (Fields e)" "nl \<in> set f"
      by auto
    with set_Fields [of f e] e show False by auto
  qed
  then show ?thesis by (simp add: translate_eq)
qed

lemma rows_no_nl: "nl \<notin> set e \<Longrightarrow> l \<in> set (rows e) \<Longrightarrow> nl \<notin> set l"
  using translate_no_nl [of e] by (auto simp: rows_def split: if_splits)

lemma rows_not_Nil: "rows e \<noteq> []"
  by (simp add: rows_def)

lemma formatCommentToMD_lines:
  "Split (formatCommentToMD rawTable) nl = concat (map rows (Split rawTable nl))"
proof -
  let ?ls = "Split rawTable nl"
  have ne: "concat (map rows ?ls) \<noteq> []"
    using Split_nonempty [of rawTable nl] by (cases ?ls) (auto simp: rows_not_Nil)
  have "\<And>l. l \<in> set (concat (map rows ?ls)) \<Longrightarrow> nl \<notin> set l"
    using Split_no_sep [of _ rawTable nl] rows_no_nl by auto
  with ne have "Split (Join (concat (map rows ?ls)) [nl]) nl = concat (map rows ?ls)"
    by (rule Split_Join)
  then show ?thesis by (simp add: formatCommentToMD_def formatLoop_0)
qed

lemma length_concat_rows: "length (concat (map rows ls)) = length ls + length (filter isHeader ls)"
  by (induction ls) (auto simp: rows_def)

lemma concat_rows_split:
  assumes "i < length ls"
  shows "concat (map rows ls) =
         concat (map rows (take i ls)) @ rows (ls ! i) @ concat (map rows (drop (Suc i) ls))"
proof -
  have "ls = take i ls @ ls ! i # drop (Suc i) ls"
    using assms by (simp add: id_take_nth_drop [symmetric])
  then have "concat (map rows ls) = concat (map rows (take i ls @ ls ! i # drop (Suc i) ls))"
    by simp
  then show ?thesis by simp
qed

lemma rows_nth:
  assumes "i < length ls"
  shows "concat (map rows ls) ! outIndex ls i = translate (ls ! i)"
    and "isHeader (ls ! i) \<Longrightarrow> concat (map rows ls) ! Suc (outIndex ls i) = ''|-|-|-|-|''"
    and "Suc (outIndex ls i) \<le> length (concat (map rows ls))"
    and "isHeader (ls ! i) \<Longrightarrow> Suc (Suc (outIndex ls i)) \<le> length (concat (map rows ls))"
proof -
  have len: "length (concat (map rows (take i ls))) = outIndex ls i"
    using assms by (simp add: length_concat_rows outIndex_def)
  note sp = concat_rows_split [OF assms]
  show "concat (map rows ls) ! outIndex ls i = translate (ls ! i)"
    by (subst sp) (simp add: nth_append len rows_def)
  show "isHeader (ls ! i) \<Longrightarrow> concat (map rows ls) ! Suc (outIndex ls i) = ''|-|-|-|-|''"
    by (subst sp) (simp add: nth_append len rows_def)
  show "Suc (outIndex ls i) \<le> length (concat (map rows ls))"
    by (subst sp) (simp add: len rows_def)
  show "isHeader (ls ! i) \<Longrightarrow> Suc (Suc (outIndex ls i)) \<le> length (concat (map rows ls))"
    by (subst sp) (simp add: len rows_def)
qed

lemma outIndex_mono: "i < j \<Longrightarrow> j \<le> length ls \<Longrightarrow> outIndex ls i < outIndex ls j"
proof -
  assume ij: "i < j" and j: "j \<le> length ls"
  have "take i ls = take i (take j ls)" using ij by (simp add: min_def)
  then have "length (filter isHeader (take i ls)) \<le> length (filter isHeader (take j ls))"
    by (metis append_take_drop_id filter_append length_append le_add1)
  with ij show ?thesis by (simp add: outIndex_def)
qed

subsection \<open>The example table\<close>

lemma Split_exampleTable:
  "Split exampleTable nl =
     [''benchmark     old ns/op     new ns/op     delta'',
      ''BenchmarkX    120           60.2          -50.00%'', []]"
  by (simp add: exampleTable_def)

lemma isHeader_example:
  "isHeader ''benchmark     old ns/op     new ns/op     delta''"
  "\<not> isHeader ''BenchmarkX    120           60.2          -50.00%''"
  "\<not> isHeader []"
  by (simp_all add: isHeader_def Contains_def)

lemma Fields_example:
  "Fields ''BenchmarkX    120           60.2          -50.00%'' =
     [''BenchmarkX'', ''120'', ''60.2'', ''-50.00%'']"
  by (simp add: Fields_def FieldsFunc_def IsSpace_def)

subsection \<open>Counting lines\<close>

lemma nonEmpty_translate: "nonEmpty (translate e) \<longleftrightarrow> hasText e"
proof (cases "isHeader e")
  case True
  then have "e \<noteq> []" by (auto simp: isHeader_def Contains_def)
  with True have "translate e \<noteq> []"
    by (auto simp: translate_eq isHeader_def)
  with True show ?thesis
    by (simp add: nonEmpty_def hasText_def isHeader_Fields)
next
  case False
  show ?thesis
  proof (cases "e = []")
    case True
    then show ?thesis
      by (simp add: nonEmpty_def hasText_def translate_eq Fields_def FieldsFunc_def)
  next
    case ne: False
    with False have "translate e = Join (Fields e) ''|''"
      by (simp add: translate_eq isHeader_def)
    then show ?thesis
      by (simp add: nonEmpty_def hasText_def Join_eq_Nil Fields_nonempty)
  qed
qed

lemma count_nonEmpty_rows:
  "length (filter nonEmpty (concat (map rows ls))) =
     length (filter hasText ls) + length (filter isHeader ls)"
  by (induction ls) (auto simp: rows_def nonEmpty_translate, auto simp: nonEmpty_def)

lemma hasText_nonEmpty: "hasText e \<Longrightarrow> nonEmpty e"
  by (auto simp: hasText_def nonEmpty_def Fields_def FieldsFunc_def)

lemma single_header_split:
  "length (filter isHeader ls) = 1 \<Longrightarrow>
     \<exists>k<length ls. isHeader (ls ! k) \<and> filter isHeader (take k ls) = []
        \<and> filter isHeader (drop (Suc k) ls) = []"
proof -
  assume "length (filter isHeader ls) = 1"
  then obtain h where "filter isHeader ls = [h]"
    by (cases "filter isHeader ls") auto
  then obtain us vs where ls: "ls = us @ h # vs" and u: "\<forall>u\<in>set us. \<not> isHeader u"
    and h: "isHeader h" and v: "[] = filter isHeader vs"
    by (auto simp: filter_eq_Cons_iff)
  have "length us < length ls" using ls by simp
  moreover have "isHeader (ls ! length us)" using ls h by simp
  moreover have "filter isHeader (take (length us) ls) = []" using ls u by simp
  moreover have "filter isHeader (drop (Suc (length us)) ls) = []" using ls v [symmetric] by simp
  ultimately show ?thesis by blast
qed

lemma concat_rows_no_header: "filter isHeader ls = [] \<Longrightarrow> concat (map rows ls) = map translate ls"
  by (induction ls) (auto simp: rows_def split: if_splits)

subsection \<open>Lines with text stay lines with text\<close>

lemma DecodeRuneInString_prefix:
  assumes "w \<noteq> []" and "DecodeRuneInString (w @ t) = (r, n)" and "n \<le> length w"
  shows "DecodeRuneInString w = (r, n)"
proof (cases w)
  case Nil
  with assms(1) show ?thesis by simp
next
  case c0: (Cons b0 w0)
  show ?thesis
  proof (cases w0)
    case Nil
    with c0 assms(2,3) show ?thesis
      by (cases t) (auto simp: Let_def split: if_splits)
  next
    case c1: (Cons b1 w1)
    show ?thesis
    proof (cases w1)
      case Nil
      with c0 c1 assms(2,3) show ?thesis
        by (cases t) (auto simp: Let_def split: if_splits)
    next
      case c2: (Cons b2 w2)
      show ?thesis
      proof (cases w2)
        case Nil
        with c0 c1 c2 assms(2,3) show ?thesis
          by (cases t) (auto simp: Let_def split: if_splits)
      next
        case (Cons b3 w3)
        with c0 c1 c2 assms(2,3) show ?thesis
          by (auto simp: Let_def split: if_splits)
      qed
    qed
  qed
qed

lemma startsWithText_hasText: "startsWithText f \<Longrightarrow> hasText f"
proof -
  assume a: "startsWithText f"
  then obtain c cs where f: "f = c # cs" by (cases f) (auto simp: startsWithText_def)
  obtain r n where d: "DecodeRuneInString (c # cs) = (r, n)"
    by (cases "DecodeRuneInString (c # cs)")
  with a f have "\<not> IsSpace r" by (simp add: startsWithText_def del: DecodeRuneInString.simps)
  with d f show ?thesis
    by (simp add: hasText_def Fields_eq_Nil del: DecodeRuneInString.simps)
qed

lemma FieldsLoop_startsWithText:
  "list_all startsWithText (FieldsLoop IsSpace (runes s) None)
   \<and> (\<forall>w r n. w \<noteq> [] \<and> DecodeRuneInString (w @ s) = (r, n) \<and> n \<le> length w \<and> \<not> IsSpace r
        \<longrightarrow> list_all startsWithText (FieldsLoop IsSpace (runes s) (Some w)))"
proof (induction s rule: runes.induct)
  case 1
  have "startsWithText w" if "w \<noteq> []" "DecodeRuneInString (w @ []) = (r, n)" "\<not> IsSpace r" for w r n
    using that by (simp add: startsWithText_def)
  then show ?case by auto
next
  case (2 c cs)
  obtain r n where d: "DecodeRuneInString (c # cs) = (r, n)"
    by (cases "DecodeRuneInString (c # cs)")
  have n: "1 \<le> n" "n \<le> length (c # cs)"
    using DecodeRuneInString_width [of c cs] d by simp_all
  note IH = "2.IH" [OF d [symmetric]]
  have ru: "runes (c # cs) = (r, take n (c # cs)) # runes (drop n (c # cs))"
    using d by (simp del: DecodeRuneInString.simps)
  have some: "list_all startsWithText (FieldsLoop IsSpace (runes (c # cs)) (Some w))"
    if w: "w \<noteq> []" "DecodeRuneInString (w @ c # cs) = (r', n')" "n' \<le> length w" "\<not> IsSpace r'"
    for w r' n'
  proof (cases "IsSpace r")
    case True
    from w(1,2,3) have "DecodeRuneInString w = (r', n')"
      by (rule DecodeRuneInString_prefix)
    with w have "startsWithText w" by (simp add: startsWithText_def)
    with True IH show ?thesis by (simp add: ru del: runes.simps)
  next
    case False
    have "w @ c # cs = (w @ take n (c # cs)) @ drop n (c # cs)" by simp
    with w have "DecodeRuneInString ((w @ take n (c # cs)) @ drop n (c # cs)) = (r', n')"
      by (simp del: DecodeRuneInString.simps append_assoc)
    moreover have "w @ take n (c # cs) \<noteq> []" "n' \<le> length (w @ take n (c # cs))"
      using w by simp_all
    ultimately have "list_all startsWithText
        (FieldsLoop IsSpace (runes (drop n (c # cs))) (Some (w @ take n (c # cs))))"
      using IH w(4) by blast
    with False show ?thesis by (simp add: ru del: runes.simps)
  qed
  have none: "list_all startsWithText (FieldsLoop IsSpace (runes (c # cs)) None)"
  proof (cases "IsSpace r")
    case True
    with IH show ?thesis by (simp add: ru del: runes.simps)
  next
    case False
    have "take n (c # cs) \<noteq> []" using n by (cases n) auto
    moreover have "DecodeRuneInString (take n (c # cs) @ drop n (c # cs)) = (r, n)"
      using d by (simp del: DecodeRuneInString.simps)
    moreover have "n \<le> length (take n (c # cs))" using n by simp
    ultimately have "list_all startsWithText
        (FieldsLoop IsSpace (runes (drop n (c # cs))) (Some (take n (c # cs))))"
      using IH False by blast
    with False show ?thesis by (simp add: ru del: runes.simps)
  qed
  from none some show ?case by blast
qed

lemma Fields_startsWithText: "list_all startsWithText (Fields s)"
  using FieldsLoop_startsWithText [of s] by (simp add: Fields_def FieldsFunc_def)

lemma bar_hasText: "CHR ''|'' \<in> set s \<Longrightarrow> hasText s"
proof (rule ccontr)
  assume b: "CHR ''|'' \<in> set s" and "\<not> hasText s"
  then have "list_all spaceByte s"
    by (simp add: hasText_def Fields_eq_Nil runes_space_bytes)
  with b have "spaceByte CHR ''|''" by (auto simp: list_all_iff)
  then show False by (simp add: spaceByte_def)
qed

lemma hasText_Join_Fields: "Fields e \<noteq> [] \<Longrightarrow> hasText (Join (Fields e) ''|'')"
proof -
  assume ne: "Fields e \<noteq> []"
  then obtain f fs where fs: "Fields e = f # fs" by (cases "Fields e") auto
  with Fields_startsWithText [of e] have f: "startsWithText f" by simp
  show ?thesis
  proof (cases fs)
    case Nil
    with fs f show ?thesis by (simp add: startsWithText_hasText)
  next
    case (Cons g gs)
    with fs have "CHR ''|'' \<in> set (Join (Fields e) ''|'')" by simp
    then show ?thesis by (rule bar_hasText)
  qed
qed

lemma hasText_translate: "hasText (translate e) \<longleftrightarrow> hasText e"
proof
  assume "hasText (translate e)"
  then have "nonEmpty (translate e)" by (rule hasText_nonEmpty)
  then show "hasText e" by (simp add: nonEmpty_translate)
next
  assume t: "hasText e"
  then have ne: "e \<noteq> []" using hasText_nonEmpty [of e] by (simp add: nonEmpty_def)
  show "hasText (translate e)"
  proof (cases "isHeader e")
    case True
    with ne have "CHR ''|'' \<in> set (translate e)"
      by (auto simp: translate_eq isHeader_def)
    then show ?thesis by (rule bar_hasText)
  next
    case False
    with ne have "translate e = Join (Fields e) ''|''"
      by (simp add: translate_eq isHeader_def)
    moreover from t have "hasText (Join (Fields e) ''|'')"
      by (intro hasText_Join_Fields) (simp add: hasText_def)
    ultimately show ?thesis by simp
  qed
qed

lemma count_hasText_rows:
  "length (filter hasText (concat (map rows ls))) =
     length (filter hasText ls) + length (filter isHeader ls)"
proof -
  have "hasText ''|-|-|-|-|''" by (rule bar_hasText) simp
  moreover have "hasText e" if "isHeader e" for e
    using that by (simp add: hasText_def isHeader_Fields)
  ultimately show ?thesis
    by (induction ls) (auto simp: rows_def hasText_translate)
qed

lemma Split_blankLineTable:
  "Split blankLineTable nl = [''benchmark old ns/op new ns/op delta'', '' '']"
  by (simp add: blankLineTable_def)

lemma hasText_examples:
  "hasText ''benchmark     old ns/op     new ns/op     delta''"
  "hasText ''BenchmarkX    120           60.2          -50.00%''"
  "hasText ''benchmark old ns/op new ns/op delta''"
  "\<not> hasText '' ''"
  "\<not> hasText []"
  by (simp_all add: hasText_def Fields_def FieldsFunc_def IsSpace_def)

section \<open>Lemmas on the construction of the GitHub environment\<close>

lemma fst_did: "fst (did c k) = c # fst k"
  by (simp add: did_def)

lemma snd_did: "snd (did c k) = snd k"
  by (simp add: did_def)

lemma fst_ret: "fst (ret x) = []"
  by (simp add: ret_def)

lemma snd_ret: "snd (ret x) = x"
  by (simp add: ret_def)

lemma fst_GitHub_PostErr:
  "fst (GitHub_PostErr w g msg) =
     [CallCreateComment (owner (github_client g)) (repo (github_client g))
        (prNumber (github_client g)) (msg @ ''. Logs: '' @ logLink g)]"
  by (simp add: GitHub_PostErr_def postComment_def did_def ret_def split: option.splits)

lemma snd_GitHub_PostErr:
  "snd (GitHub_PostErr w g msg) =
     (case Issues_CreateComment w of None \<Rightarrow> None | Some e \<Rightarrow> Some (Wrap e ''posting err''))"
  by (simp add: GitHub_PostErr_def postComment_def did_def ret_def split: option.splits)

lemmas run_simps = fst_did snd_did fst_ret snd_ret

text \<open>
  Either \<open>newGitHubEnv\<close> returns before the fetch, with an error or a panic and
  without a comment, or it has made the ten calls below and ends as \<open>fetchAndCheckout\<close>
  does.
\<close>

lemma newGitHubEnv_spine:
  "(CallFetch \<notin> set (fst (newGitHubEnv w lg path))
      \<and> (\<forall>b. CallCheckout b \<notin> set (fst (newGitHubEnv w lg path)))
      \<and> \<not> list_ex isComment (fst (newGitHubEnv w lg path))
      \<and> (\<forall>g. snd (newGitHubEnv w lg path) \<noteq> Return g))
   \<or> (\<exists>ws name url dir g issue number.
        fst (newGitHubEnv w lg path) =
          [CallReadFile path, CallChdir ws, CallPlainClone name url,
           CallReadFile ''/github/home/commentMonitor/REGEX'',
           CallReadFile ''/github/home/commentMonitor/RACE'',
           CallReadFile ''/github/home/commentMonitor/BRANCH'',
           CallChdir dir, CallSetenv ''GO111MODULE'' ''on'', CallSetenv ''CGO_ENABLED'' ''0'',
           CallWorktree] @ fst (fetchAndCheckout w g issue)
        \<and> snd (newGitHubEnv w lg path) = snd (fetchAndCheckout w g issue)
        \<and> deref_IssueNumber issue = Some number
        \<and> git_PlainCloneContext w = Inr (github_repo g)
        \<and> isRaceEnabled g =
            (ioutil_ReadFile w ''/github/home/commentMonitor/RACE'' \<noteq> Inr ''-no-race''))"
  apply (simp add: newGitHubEnv_def run_simps isComment_def newGitHubClient_def Let_def
      split: sum.splits option.splits event.splits)
  apply (intro allI impI conjI)
  apply (rule disjI2)
  apply (intro exI conjI)
  apply (rule refl)+
  apply simp_all
  done

lemma GitHub_PostErr_eq:
  "GitHub_PostErr w g msg =
     ([CallCreateComment (owner (github_client g)) (repo (github_client g))
         (prNumber (github_client g)) (msg @ ''. Logs: '' @ logLink g)],
      case Issues_CreateComment w of None \<Rightarrow> None | Some e \<Rightarrow> Some (Wrap e ''posting err''))"
  by (simp add: GitHub_PostErr_def postComment_def did_def ret_def split: option.splits)

lemma fetchAndCheckout_fetch_failed:
  assumes "git_FetchContext w = Some err" and "err \<noteq> NoErrAlreadyUpToDate"
  shows "fetchAndCheckout w g issue =
     ([CallFetch,
       CallCreateComment (owner (github_client g)) (repo (github_client g))
         (prNumber (github_client g))
         (''Switch (fetch) to a pull request branch failed. Logs: '' @ logLink g)],
      case Issues_CreateComment w of
        None \<Rightarrow> Fail err
      | Some cErr \<Rightarrow> Fail (Wrapf_postComment err (Wrap cErr ''posting err'')))"
  using assms
  by (simp add: fetchAndCheckout_def GitHub_PostErr_eq did_def split: option.splits)

lemma fetchAndCheckout_fetch_ok:
  assumes "git_FetchContext w = None \<or> git_FetchContext w = Some NoErrAlreadyUpToDate"
    and "deref_IssueNumber issue = Some number"
  shows "fetchAndCheckout w g issue =
     (case git_Checkout w of
        None \<Rightarrow>
          ([CallFetch, CallCheckout (''pull/'' @ Itoa number @ ''/head:pullrequest'')], Return g)
      | Some err \<Rightarrow>
          ([CallFetch, CallCheckout (''pull/'' @ Itoa number @ ''/head:pullrequest''),
            CallCreateComment (owner (github_client g)) (repo (github_client g))
              (prNumber (github_client g))
              (''Switch to a pull request branch failed. Logs: '' @ logLink g)],
           case Issues_CreateComment w of
             None \<Rightarrow> Fail err
           | Some cErr \<Rightarrow> Fail (Wrapf_postComment err (Wrap cErr ''posting err''))))"
  using assms
  by (auto simp: fetchAndCheckout_def GitHub_PostErr_eq did_def ret_def split: option.splits)

lemma fetchAndCheckout_up_to_date:
  "git_FetchContext w = Some NoErrAlreadyUpToDate \<Longrightarrow>
     fetchAndCheckout (w\<lparr>git_FetchContext := None\<rparr>) g issue = fetchAndCheckout w g issue"
  by (simp add: fetchAndCheckout_def GitHub_PostErr_eq split: option.splits)

lemma fetchAndCheckout_Return:
  "snd (fetchAndCheckout w g issue) = Return g' \<Longrightarrow> g' = g"
  by (auto simp: fetchAndCheckout_def GitHub_PostErr_eq did_def ret_def Let_def
      split: option.splits if_splits)

lemma fetchAndCheckout_checkout_called:
  "CallCheckout b \<in> set (fst (fetchAndCheckout w g issue)) \<Longrightarrow>
     git_FetchContext w = None \<or> git_FetchContext w = Some NoErrAlreadyUpToDate"
  by (auto simp: fetchAndCheckout_def GitHub_PostErr_eq did_def ret_def Let_def
      split: option.splits if_splits)

lemmas example_defs = exampleWorld_def exampleEvent_def exampleGitHub_def exampleCalls_def
  newGitHubEnv_def fetchAndCheckout_def GitHub_PostErr_def postComment_def did_def ret_def
  newGitHubClient_def deref_RepoName_def deref_OwnerLogin_def deref_IssueNumber_def
  Itoa_def digits.simps

lemma example_run:
  "newGitHubEnv exampleWorld (LoggerHandle 0) ''/github/workflow/event.json'' =
     (exampleCalls @ [CallCheckout ''pull/42/head:pullrequest''], Return exampleGitHub)"
  by (simp add: example_defs)

lemma raceWorld_run:
  "newGitHubEnv (raceWorld content) (LoggerHandle 0) ''/github/workflow/event.json'' =
     (exampleCalls @ [CallCheckout ''pull/42/head:pullrequest''],
      Return (exampleGitHub\<lparr>isRaceEnabled := (content \<noteq> ''-no-race'')\<rparr>))"
  by (simp add: raceWorld_def example_defs)

section \<open>Properties of the markdown transformer\<close>

text \<open>
  Below, the input lines are \<open>Split rawTable nl\<close> and the output lines are
  \<open>Split (formatCommentToMD rawTable) nl\<close>; the translation of input line \<open>i\<close> is
  output line \<open>outIndex (Split rawTable nl) i\<close>.
\<close>

text \<open>
  Claim C9. The transform keeps the order of the lines: the output lines are the input
  lines in their order, each replaced by its translation, with a separator row after
  each header line and nothing else. So the output has one line more per header line,
  and the translated lines appear in it in the order of the input.
\<close>

theorem order_preserved:
  "Split (formatCommentToMD rawTable) nl =
     concat (map (\<lambda>e. if isHeader e then [translate e, ''|-|-|-|-|''] else [translate e])
                 (Split rawTable nl))
   \<and> length (Split (formatCommentToMD rawTable) nl) =
       length (Split rawTable nl) + length (filter isHeader (Split rawTable nl))
   \<and> subseq (map translate (Split rawTable nl)) (Split (formatCommentToMD rawTable) nl)"
proof -
  have r: "rows = (\<lambda>e. if isHeader e then [translate e, ''|-|-|-|-|''] else [translate e])"
    by (rule ext) (simp add: rows_def)
  have s: "subseq (map translate ls) (concat (map rows ls))" for ls
    by (induction ls) (auto simp: rows_def)
  show ?thesis
    using s [of "Split rawTable nl"]
    by (simp add: formatCommentToMD_lines length_concat_rows r [symmetric])
qed

text \<open>
  Claim C6. An input line that contains one of the four markers is replaced by the
  header of that marker (the first of \<open>old ns/op\<close>, \<open>old MB/s\<close>, \<open>old allocs\<close>,
  \<open>old bytes\<close> that the line contains, in the order of the \<open>switch\<close>), and the
  separator row \<open>|-|-|-|-|\<close> is the output line right after it.
\<close>

theorem header_line_replaced:
  assumes "i < length (Split rawTable nl)" and "isHeader (Split rawTable nl ! i)"
  shows "Split (formatCommentToMD rawTable) nl ! outIndex (Split rawTable nl) i =
           (if Contains (Split rawTable nl ! i) ''old ns/op''
              then ''| Benchmark | Old ns/op | New ns/op | Delta |''
            else if Contains (Split rawTable nl ! i) ''old MB/s''
              then ''| Benchmark | Old MB/s | New MB/s | Speedup |''
            else if Contains (Split rawTable nl ! i) ''old allocs''
              then ''| Benchmark | Old allocs | New allocs | Delta |''
            else ''| Benchmark | Old bytes | New bytes | Delta |'')
         \<and> Split (formatCommentToMD rawTable) nl ! Suc (outIndex (Split rawTable nl) i) = ''|-|-|-|-|''
         \<and> Suc (outIndex (Split rawTable nl) i) < length (Split (formatCommentToMD rawTable) nl)"
proof -
  let ?e = "Split rawTable nl ! i"
  from assms(2) have ne: "?e \<noteq> []"
    by (auto simp: isHeader_def Contains_def)
  from assms(2) ne have "translate ?e =
           (if Contains ?e ''old ns/op''
              then ''| Benchmark | Old ns/op | New ns/op | Delta |''
            else if Contains ?e ''old MB/s''
              then ''| Benchmark | Old MB/s | New MB/s | Speedup |''
            else if Contains ?e ''old allocs''
              then ''| Benchmark | Old allocs | New allocs | Delta |''
            else ''| Benchmark | Old bytes | New bytes | Delta |'')"
    by (auto simp: translate_eq isHeader_def)
  with rows_nth [OF assms(1)] assms(2) show ?thesis
    by (simp add: formatCommentToMD_lines Suc_le_eq)
qed

theorem header_line_replaced_witness:
  "0 < length (Split exampleTable nl) \<and> isHeader (Split exampleTable nl ! 0)
   \<and> Split (formatCommentToMD exampleTable) nl ! 0 = ''| Benchmark | Old ns/op | New ns/op | Delta |''
   \<and> Split (formatCommentToMD exampleTable) nl ! 1 = ''|-|-|-|-|''"
proof -
  have h1: "0 < length (Split exampleTable nl)"
    by (simp add: Split_exampleTable)
  have h2: "isHeader (Split exampleTable nl ! 0)"
    by (simp add: Split_exampleTable isHeader_example)
  have c: "Contains (Split exampleTable nl ! 0) ''old ns/op''"
    by (simp add: Split_exampleTable Contains_def)
  from header_line_replaced [OF h1 h2] h1 h2 c show ?thesis
    by (simp add: outIndex_def)
qed

text \<open>
  Claim C7. An input line that contains no marker and is not empty becomes its
  white-space separated fields joined by \<open>|\<close>; an empty line stays empty. The fields are
  those of \<open>strings.Fields\<close>: none is empty, and together they are the characters of
  the line that are not white space, in the order of the line.
\<close>

theorem other_line_pipe_joined:
  assumes "i < length (Split rawTable nl)" and "\<not> isHeader (Split rawTable nl ! i)"
  shows "Split (formatCommentToMD rawTable) nl ! outIndex (Split rawTable nl) i =
           (if Split rawTable nl ! i = [] then []
            else Join (Fields (Split rawTable nl ! i)) ''|'')
         \<and> outIndex (Split rawTable nl) i < length (Split (formatCommentToMD rawTable) nl)
         \<and> [] \<notin> set (Fields (Split rawTable nl ! i))
         \<and> concat (Fields (Split rawTable nl ! i)) =
             concat (map snd (filter (\<lambda>p. \<not> IsSpace (fst p)) (runes (Split rawTable nl ! i))))"
proof -
  from assms(2) have "translate (Split rawTable nl ! i) =
           (if Split rawTable nl ! i = [] then []
            else Join (Fields (Split rawTable nl ! i)) ''|'')"
    by (simp add: translate_eq isHeader_def)
  with rows_nth [OF assms(1)] show ?thesis
    by (simp add: formatCommentToMD_lines Suc_le_eq Fields_nonempty Fields_concat)
qed

theorem other_line_pipe_joined_witness:
  "1 < length (Split exampleTable nl) \<and> \<not> isHeader (Split exampleTable nl ! 1)
   \<and> Split (formatCommentToMD exampleTable) nl ! 2 = ''BenchmarkX|120|60.2|-50.00%''
   \<and> 2 < length (Split exampleTable nl) \<and> \<not> isHeader (Split exampleTable nl ! 2)
   \<and> Split (formatCommentToMD exampleTable) nl ! 3 = []"
proof -
  have h1: "1 < length (Split exampleTable nl)" and h1': "2 < length (Split exampleTable nl)"
    by (simp_all add: Split_exampleTable)
  have h2: "\<not> isHeader (Split exampleTable nl ! 1)" and h2': "\<not> isHeader (Split exampleTable nl ! 2)"
    by (simp_all add: Split_exampleTable isHeader_example)
  from other_line_pipe_joined [OF h1 h2] other_line_pipe_joined [OF h1' h2'] h1 h1' h2 h2'
  show ?thesis
    by (simp add: outIndex_def Split_exampleTable isHeader_example Fields_example eval_nat_numeral)
qed
text \<open>
  Claim C2. When exactly one input line contains a marker, the output is the
  translated lines with exactly one separator row inserted, directly below the
  translated header line, and the number of non-blank output lines is the number of
  non-blank input lines plus one. A line is blank when it has no character other than
  white space; an output line is blank exactly when it is empty.
\<close>

theorem single_header_table:
  assumes "length (filter isHeader (Split rawTable nl)) = 1"
  shows "\<exists>k<length (Split rawTable nl).
           isHeader (Split rawTable nl ! k)
           \<and> Split (formatCommentToMD rawTable) nl =
               map translate (take k (Split rawTable nl))
               @ [translate (Split rawTable nl ! k), ''|-|-|-|-|'']
               @ map translate (drop (Suc k) (Split rawTable nl))
           \<and> length (filter hasText (Split (formatCommentToMD rawTable) nl)) =
               length (filter hasText (Split rawTable nl)) + 1
           \<and> filter nonEmpty (Split (formatCommentToMD rawTable) nl) =
               filter hasText (Split (formatCommentToMD rawTable) nl)"
proof -
  let ?ls = "Split rawTable nl"
  from single_header_split [OF assms] obtain k where k: "k < length ?ls"
    and hk: "isHeader (?ls ! k)" and before: "filter isHeader (take k ?ls) = []"
    and after: "filter isHeader (drop (Suc k) ?ls) = []"
    by blast
  have "concat (map rows ?ls) =
          map translate (take k ?ls) @ [translate (?ls ! k), ''|-|-|-|-|'']
          @ map translate (drop (Suc k) ?ls)"
    by (subst concat_rows_split [OF k])
       (simp add: concat_rows_no_header before after rows_def hk)
  then have shape: "Split (formatCommentToMD rawTable) nl =
          map translate (take k ?ls) @ [translate (?ls ! k), ''|-|-|-|-|'']
          @ map translate (drop (Suc k) ?ls)"
    by (simp add: formatCommentToMD_lines)
  have cnt: "length (filter hasText (Split (formatCommentToMD rawTable) nl)) =
          length (filter hasText ?ls) + 1"
    using assms by (simp add: formatCommentToMD_lines count_hasText_rows)
  have sep: "hasText ''|-|-|-|-|''" by (rule bar_hasText) simp
  have "nonEmpty l = hasText l" if "l \<in> set (concat (map rows ?ls))" for l
  proof -
    from that obtain e where "l = translate e \<or> l = ''|-|-|-|-|''"
      by (auto simp: rows_def split: if_splits)
    moreover have "nonEmpty (translate e) = hasText (translate e)"
      by (simp add: nonEmpty_translate hasText_translate)
    moreover have "nonEmpty ''|-|-|-|-|'' = hasText ''|-|-|-|-|''"
      using sep by (simp add: nonEmpty_def)
    ultimately show ?thesis by auto
  qed
  then have "filter nonEmpty (concat (map rows ?ls)) = filter hasText (concat (map rows ?ls))"
    by (intro filter_cong refl)
  then have same: "filter nonEmpty (Split (formatCommentToMD rawTable) nl) =
               filter hasText (Split (formatCommentToMD rawTable) nl)"
    by (simp only: formatCommentToMD_lines)
  from k hk shape cnt same show ?thesis by blast
qed

theorem single_header_table_witness:
  "length (filter isHeader (Split exampleTable nl)) = 1
   \<and> length (filter hasText (Split exampleTable nl)) = 2
   \<and> length (filter hasText (Split (formatCommentToMD exampleTable) nl)) = 3
   \<and> length (filter isHeader (Split blankLineTable nl)) = 1
   \<and> length (filter hasText (Split blankLineTable nl)) = 1
   \<and> length (filter hasText (Split (formatCommentToMD blankLineTable) nl)) = 2"
proof -
  have h: "length (filter isHeader (Split exampleTable nl)) = 1"
    by (simp add: Split_exampleTable isHeader_example)
  have n: "length (filter hasText (Split exampleTable nl)) = 2"
    by (simp add: Split_exampleTable hasText_examples)
  have h': "length (filter isHeader (Split blankLineTable nl)) = 1"
    by (simp add: Split_blankLineTable isHeader_def Contains_def)
  have n': "length (filter hasText (Split blankLineTable nl)) = 1"
    by (simp add: Split_blankLineTable hasText_examples)
  from single_header_table [OF h] single_header_table [OF h'] h n h' n'
  show ?thesis by auto
qed

section \<open>Properties of the environments\<close>

text \<open>
  Claim C8. For every Local environment and every error string, \<open>PostErr\<close> returns
  no error: the method is a no-op, whatever the environment holds and whatever text
  it is given.
\<close>

theorem Local_PostErr_returns_nil: "Local_PostErr l err = None"
  by (simp add: Local_PostErr_def)

text \<open>
  Claim C5. \<open>newLocalEnv\<close> fails with \<open>ErrRepositoryNotExists\<close> (the spec's
  \<open>NotARepository\<close>) when neither the working directory nor any of its parents holds
  a repository, and succeeds, with the given environment and the repository of one of
  these directories, when one of them does.
\<close>

theorem local_env_requires_repository:
  "(list_all (\<lambda>d. dotGit w d = None) (ancestors (filepath_Abs w ''.'')) \<longrightarrow>
      newLocalEnv w e = Inl ErrRepositoryNotExists)
   \<and> (list_ex (\<lambda>d. dotGit w d \<noteq> None) (ancestors (filepath_Abs w ''.'')) \<longrightarrow>
      (\<exists>r. newLocalEnv w e = Inr (environment.extend e (Local.fields r))
           \<and> list_ex (\<lambda>d. dotGit w d = Some r) (ancestors (filepath_Abs w ''.''))))"
proof -
  have none: "list_all (\<lambda>d. dg d = None) (ancestors p) \<Longrightarrow> walkDotGit dg p = None"
    for dg :: "string list \<Rightarrow> Repository option" and p
    by (induction p) auto
  have some: "list_ex (\<lambda>d. dg d \<noteq> None) (ancestors p) \<Longrightarrow>
      \<exists>r. walkDotGit dg p = Some r \<and> list_ex (\<lambda>d. dg d = Some r) (ancestors p)"
    for dg :: "string list \<Rightarrow> Repository option" and p
    by (induction p) (auto split: option.splits)
  show ?thesis
  proof (intro conjI impI)
    assume "list_all (\<lambda>d. dotGit w d = None) (ancestors (filepath_Abs w ''.''))"
    then have "walkDotGit (dotGit w) (filepath_Abs w ''.'') = None"
      by (rule none)
    then show "newLocalEnv w e = Inl ErrRepositoryNotExists"
      by (simp add: newLocalEnv_def PlainOpenWithOptions_def)
  next
    assume "list_ex (\<lambda>d. dotGit w d \<noteq> None) (ancestors (filepath_Abs w ''.''))"
    then obtain r where r: "walkDotGit (dotGit w) (filepath_Abs w ''.'') = Some r"
      and ex: "list_ex (\<lambda>d. dotGit w d = Some r) (ancestors (filepath_Abs w ''.''))"
      using some by blast
    from r have "newLocalEnv w e = Inr (environment.extend e (Local.fields r))"
      by (simp add: newLocalEnv_def PlainOpenWithOptions_def)
    with ex show "\<exists>r. newLocalEnv w e = Inr (environment.extend e (Local.fields r))
           \<and> list_ex (\<lambda>d. dotGit w d = Some r) (ancestors (filepath_Abs w ''.''))"
      by blast
  qed
qed

theorem local_env_requires_repository_witness:
  "list_all (\<lambda>d. dotGit noRepositoryWorld d = None) (ancestors (filepath_Abs noRepositoryWorld ''.''))
   \<and> newLocalEnv noRepositoryWorld exampleEnv = Inl ErrRepositoryNotExists
   \<and> list_ex (\<lambda>d. dotGit exampleWorld d \<noteq> None) (ancestors (filepath_Abs exampleWorld ''.''))
   \<and> newLocalEnv exampleWorld exampleEnv =
       Inr (environment.extend exampleEnv (Local.fields (RepositoryHandle 1)))"
proof -
  have h1: "list_all (\<lambda>d. dotGit noRepositoryWorld d = None)
              (ancestors (filepath_Abs noRepositoryWorld ''.''))"
    by (simp add: noRepositoryWorld_def exampleWorld_def)
  have h2: "list_ex (\<lambda>d. dotGit exampleWorld d \<noteq> None) (ancestors (filepath_Abs exampleWorld ''.''))"
    by (simp add: exampleWorld_def)
  have r: "list_ex (\<lambda>d. dotGit exampleWorld d = Some r) (ancestors (filepath_Abs exampleWorld ''.''))
           \<Longrightarrow> r = RepositoryHandle 1" for r
    by (simp add: exampleWorld_def split: if_splits)
  from local_env_requires_repository [of noRepositoryWorld exampleEnv]
       local_env_requires_repository [of exampleWorld exampleEnv] h1 h2 r
  show ?thesis by auto
qed

text \<open>
  Claim C1, as amended. A clone that fails ends the construction, also when it fails
  because the repository already exists: \<open>newGitHubEnv\<close> returns the clone error
  wrapped with \<open>git clone\<close>, the clone is its last call, and no comment is posted.
\<close>

theorem clone_failure_aborts:
  assumes "CallPlainClone name url \<in> set (fst (newGitHubEnv w lg path))"
    and "git_PlainCloneContext w = Inl err"
  shows "snd (newGitHubEnv w lg path) = Fail (Wrap err ''git clone'')
         \<and> last (fst (newGitHubEnv w lg path)) = CallPlainClone name url
         \<and> \<not> list_ex isComment (fst (newGitHubEnv w lg path))"
  using assms
  by (auto simp: newGitHubEnv_def run_simps isComment_def Let_def
      split: sum.splits option.splits event.splits)

theorem clone_failure_aborts_witness:
  "CallPlainClone ''test-infra'' ''https://github.com/prometheus/test-infra.git''
     \<in> set (fst (newGitHubEnv cloneExistsWorld (LoggerHandle 0) ''/github/workflow/event.json''))
   \<and> git_PlainCloneContext cloneExistsWorld = Inl ErrRepositoryAlreadyExists
   \<and> snd (newGitHubEnv cloneExistsWorld (LoggerHandle 0) ''/github/workflow/event.json'') =
       Fail (Wrap ErrRepositoryAlreadyExists ''git clone'')
   \<and> last (fst (newGitHubEnv cloneExistsWorld (LoggerHandle 0) ''/github/workflow/event.json'')) =
       CallPlainClone ''test-infra'' ''https://github.com/prometheus/test-infra.git''"
proof -
  have h1: "CallPlainClone ''test-infra'' ''https://github.com/prometheus/test-infra.git''
     \<in> set (fst (newGitHubEnv cloneExistsWorld (LoggerHandle 0) ''/github/workflow/event.json''))"
    by (simp add: cloneExistsWorld_def example_defs)
  have h2: "git_PlainCloneContext cloneExistsWorld = Inl ErrRepositoryAlreadyExists"
    by (simp add: cloneExistsWorld_def)
  from clone_failure_aborts [OF h1 h2] h1 h2 show ?thesis by simp
qed

text \<open>
  Claim C1 as first stated fails: in \<open>cloneExistsWorld\<close> the clone answers
  \<open>ErrRepositoryAlreadyExists\<close>, and the construction stops there and returns that
  error.
\<close>

theorem clone_already_exists_counterexample:
  "git_PlainCloneContext cloneExistsWorld = Inl ErrRepositoryAlreadyExists
   \<and> newGitHubEnv cloneExistsWorld (LoggerHandle 0) ''/github/workflow/event.json'' =
       ([CallReadFile ''/github/workflow/event.json'', CallChdir ''/github/workspace'',
         CallPlainClone ''test-infra'' ''https://github.com/prometheus/test-infra.git''],
        Fail (Wrap ErrRepositoryAlreadyExists ''git clone''))"
  by (simp add: cloneExistsWorld_def example_defs)

text \<open>
  Claim C3. A fetch that fails with an error other than \<open>NoErrAlreadyUpToDate\<close>, and
  a checkout that fails, are each followed by exactly one comment post, the only one of
  the run. When the post succeeds the error of the fetch or checkout is returned as it
  is. When the post fails too, the returned error combines both: it is the error of the
  fetch or checkout wrapped (\<open>Wrap\<close> keeps it as the cause) with a message that holds
  the text of the error of the post, so that its own text holds the text of the error
  of the post and, after it, the text of the error of the fetch or checkout.
\<close>

theorem fetch_or_checkout_failure_posts_comment:
  "(CallFetch \<in> set (fst (newGitHubEnv w lg path))
      \<and> git_FetchContext w = Some err \<and> err \<noteq> NoErrAlreadyUpToDate \<longrightarrow>
      (\<exists>pre owner repo number link.
         fst (newGitHubEnv w lg path) =
           pre @ [CallFetch,
                  CallCreateComment owner repo number
                    (''Switch (fetch) to a pull request branch failed. Logs: '' @ link)]
         \<and> \<not> list_ex isComment pre)
      \<and> snd (newGitHubEnv w lg path) =
          (case Issues_CreateComment w of
             None \<Rightarrow> Fail err
           | Some cErr \<Rightarrow>
               Fail (Wrap err
                 (''posting a comment for `checkout` command execution error; postComment err:''
                  @ Error (Wrap cErr ''posting err''))))
      \<and> (\<forall>cErr. Issues_CreateComment w = Some cErr \<longrightarrow>
            (\<exists>e. snd (newGitHubEnv w lg path) = Fail e
              \<and> Error e =
                  ''posting a comment for `checkout` command execution error; postComment err:''
                  @ ''posting err: '' @ Error cErr @ '': '' @ Error err)))
   \<and> (CallCheckout branch \<in> set (fst (newGitHubEnv w lg path))
      \<and> git_Checkout w = Some err \<longrightarrow>
      (\<exists>pre owner repo number link.
         fst (newGitHubEnv w lg path) =
           pre @ [CallCheckout branch,
                  CallCreateComment owner repo number
                    (''Switch to a pull request branch failed. Logs: '' @ link)]
         \<and> \<not> list_ex isComment pre)
      \<and> snd (newGitHubEnv w lg path) =
          (case Issues_CreateComment w of
             None \<Rightarrow> Fail err
           | Some cErr \<Rightarrow>
               Fail (Wrap err
                 (''posting a comment for `checkout` command execution error; postComment err:''
                  @ Error (Wrap cErr ''posting err''))))
      \<and> (\<forall>cErr. Issues_CreateComment w = Some cErr \<longrightarrow>
            (\<exists>e. snd (newGitHubEnv w lg path) = Fail e
              \<and> Error e =
                  ''posting a comment for `checkout` command execution error; postComment err:''
                  @ ''posting err: '' @ Error cErr @ '': '' @ Error err)))"
proof -
  have combined: "snd R =
          (case Issues_CreateComment w of
             None \<Rightarrow> Fail err
           | Some cErr \<Rightarrow>
               Fail (Wrap err
                 (''posting a comment for `checkout` command execution error; postComment err:''
                  @ Error (Wrap cErr ''posting err''))))
      \<and> (\<forall>cErr. Issues_CreateComment w = Some cErr \<longrightarrow>
            (\<exists>e. snd R = Fail e
              \<and> Error e =
                  ''posting a comment for `checkout` command execution error; postComment err:''
                  @ ''posting err: '' @ Error cErr @ '': '' @ Error err))"
    if "snd R =
          (case Issues_CreateComment w of
             None \<Rightarrow> Fail err
           | Some cErr \<Rightarrow> Fail (Wrapf_postComment err (Wrap cErr ''posting err'')))"
    for R :: "call list \<times> GitHub outcome"
    using that by (cases "Issues_CreateComment w") (simp_all add: Wrapf_postComment_def)
  show ?thesis
  proof (intro conjI impI)
    assume a: "CallFetch \<in> set (fst (newGitHubEnv w lg path))
        \<and> git_FetchContext w = Some err \<and> err \<noteq> NoErrAlreadyUpToDate"
    with newGitHubEnv_spine [of w lg path] obtain ws name url dir g issue
      where tr: "fst (newGitHubEnv w lg path) =
            [CallReadFile path, CallChdir ws, CallPlainClone name url,
             CallReadFile ''/github/home/commentMonitor/REGEX'',
             CallReadFile ''/github/home/commentMonitor/RACE'',
             CallReadFile ''/github/home/commentMonitor/BRANCH'',
             CallChdir dir, CallSetenv ''GO111MODULE'' ''on'', CallSetenv ''CGO_ENABLED'' ''0'',
             CallWorktree] @ fst (fetchAndCheckout w g issue)"
        and res: "snd (newGitHubEnv w lg path) = snd (fetchAndCheckout w g issue)"
      by blast
    from a have t: "fetchAndCheckout w g issue =
       ([CallFetch,
         CallCreateComment (owner (github_client g)) (repo (github_client g))
           (prNumber (github_client g))
           (''Switch (fetch) to a pull request branch failed. Logs: '' @ logLink g)],
        case Issues_CreateComment w of
          None \<Rightarrow> Fail err
        | Some cErr \<Rightarrow> Fail (Wrapf_postComment err (Wrap cErr ''posting err'')))"
      by (simp add: fetchAndCheckout_fetch_failed)
    have "snd (newGitHubEnv w lg path) =
            (case Issues_CreateComment w of
               None \<Rightarrow> Fail err
             | Some cErr \<Rightarrow> Fail (Wrapf_postComment err (Wrap cErr ''posting err'')))"
      by (simp add: res t)
    note c = combined [OF this]
    from c show "snd (newGitHubEnv w lg path) =
          (case Issues_CreateComment w of
             None \<Rightarrow> Fail err
           | Some cErr \<Rightarrow>
               Fail (Wrap err
                 (''posting a comment for `checkout` command execution error; postComment err:''
                  @ Error (Wrap cErr ''posting err''))))"
      by (rule conjunct1)
    from c show "\<forall>cErr. Issues_CreateComment w = Some cErr \<longrightarrow>
            (\<exists>e. snd (newGitHubEnv w lg path) = Fail e
              \<and> Error e =
                  ''posting a comment for `checkout` command execution error; postComment err:''
                  @ ''posting err: '' @ Error cErr @ '': '' @ Error err)"
      by (rule conjunct2)
    have "fst (newGitHubEnv w lg path) =
            [CallReadFile path, CallChdir ws, CallPlainClone name url,
             CallReadFile ''/github/home/commentMonitor/REGEX'',
             CallReadFile ''/github/home/commentMonitor/RACE'',
             CallReadFile ''/github/home/commentMonitor/BRANCH'',
             CallChdir dir, CallSetenv ''GO111MODULE'' ''on'', CallSetenv ''CGO_ENABLED'' ''0'',
             CallWorktree]
            @ [CallFetch,
               CallCreateComment (owner (github_client g)) (repo (github_client g))
                 (prNumber (github_client g))
                 (''Switch (fetch) to a pull request branch failed. Logs: '' @ logLink g)]"
      by (simp add: tr t)
    moreover have "\<not> list_ex isComment
            [CallReadFile path, CallChdir ws, CallPlainClone name url,
             CallReadFile ''/github/home/commentMonitor/REGEX'',
             CallReadFile ''/github/home/commentMonitor/RACE'',
             CallReadFile ''/github/home/commentMonitor/BRANCH'',
             CallChdir dir, CallSetenv ''GO111MODULE'' ''on'', CallSetenv ''CGO_ENABLED'' ''0'',
             CallWorktree]"
      by (simp add: isComment_def)
    ultimately show "\<exists>pre owner repo number link.
           fst (newGitHubEnv w lg path) =
             pre @ [CallFetch,
                    CallCreateComment owner repo number
                      (''Switch (fetch) to a pull request branch failed. Logs: '' @ link)]
           \<and> \<not> list_ex isComment pre"
      by blast
  next
    assume a: "CallCheckout branch \<in> set (fst (newGitHubEnv w lg path))
        \<and> git_Checkout w = Some err"
    with newGitHubEnv_spine [of w lg path] obtain ws name url dir g issue number
      where tr: "fst (newGitHubEnv w lg path) =
            [CallReadFile path, CallChdir ws, CallPlainClone name url,
             CallReadFile ''/github/home/commentMonitor/REGEX'',
             CallReadFile ''/github/home/commentMonitor/RACE'',
             CallReadFile ''/github/home/commentMonitor/BRANCH'',
             CallChdir dir, CallSetenv ''GO111MODULE'' ''on'', CallSetenv ''CGO_ENABLED'' ''0'',
             CallWorktree] @ fst (fetchAndCheckout w g issue)"
        and res: "snd (newGitHubEnv w lg path) = snd (fetchAndCheckout w g issue)"
        and num: "deref_IssueNumber issue = Some number"
      by blast
    from a tr have "CallCheckout branch \<in> set (fst (fetchAndCheckout w g issue))"
      by simp
    then have ok: "git_FetchContext w = None \<or> git_FetchContext w = Some NoErrAlreadyUpToDate"
      by (rule fetchAndCheckout_checkout_called)
    from a have t: "fetchAndCheckout w g issue =
            ([CallFetch, CallCheckout (''pull/'' @ Itoa number @ ''/head:pullrequest''),
              CallCreateComment (owner (github_client g)) (repo (github_client g))
                (prNumber (github_client g))
                (''Switch to a pull request branch failed. Logs: '' @ logLink g)],
             case Issues_CreateComment w of
               None \<Rightarrow> Fail err
             | Some cErr \<Rightarrow> Fail (Wrapf_postComment err (Wrap cErr ''posting err'')))"
      by (simp add: fetchAndCheckout_fetch_ok [OF ok num])
    have "snd (newGitHubEnv w lg path) =
            (case Issues_CreateComment w of
               None \<Rightarrow> Fail err
             | Some cErr \<Rightarrow> Fail (Wrapf_postComment err (Wrap cErr ''posting err'')))"
      by (simp add: res t)
    note c = combined [OF this]
    from c show "snd (newGitHubEnv w lg path) =
          (case Issues_CreateComment w of
             None \<Rightarrow> Fail err
           | Some cErr \<Rightarrow>
               Fail (Wrap err
                 (''posting a comment for `checkout` command execution error; postComment err:''
                  @ Error (Wrap cErr ''posting err''))))"
      by (rule conjunct1)
    from c show "\<forall>cErr. Issues_CreateComment w = Some cErr \<longrightarrow>
            (\<exists>e. snd (newGitHubEnv w lg path) = Fail e
              \<and> Error e =
                  ''posting a comment for `checkout` command execution error; postComment err:''
                  @ ''posting err: '' @ Error cErr @ '': '' @ Error err)"
      by (rule conjunct2)
    from a tr t have b: "branch = ''pull/'' @ Itoa number @ ''/head:pullrequest''"
      by simp
    have "fst (newGitHubEnv w lg path) =
            [CallReadFile path, CallChdir ws, CallPlainClone name url,
             CallReadFile ''/github/home/commentMonitor/REGEX'',
             CallReadFile ''/github/home/commentMonitor/RACE'',
             CallReadFile ''/github/home/commentMonitor/BRANCH'',
             CallChdir dir, CallSetenv ''GO111MODULE'' ''on'', CallSetenv ''CGO_ENABLED'' ''0'',
             CallWorktree, CallFetch]
            @ [CallCheckout branch,
               CallCreateComment (owner (github_client g)) (repo (github_client g))
                 (prNumber (github_client g))
                 (''Switch to a pull request branch failed. Logs: '' @ logLink g)]"
      by (simp add: tr t b)
    moreover have "\<not> list_ex isComment
            [CallReadFile path, CallChdir ws, CallPlainClone name url,
             CallReadFile ''/github/home/commentMonitor/REGEX'',
             CallReadFile ''/github/home/commentMonitor/RACE'',
             CallReadFile ''/github/home/commentMonitor/BRANCH'',
             CallChdir dir, CallSetenv ''GO111MODULE'' ''on'', CallSetenv ''CGO_ENABLED'' ''0'',
             CallWorktree, CallFetch]"
      by (simp add: isComment_def)
    ultimately show "\<exists>pre owner repo number link.
           fst (newGitHubEnv w lg path) =
             pre @ [CallCheckout branch,
                    CallCreateComment owner repo number
                      (''Switch to a pull request branch failed. Logs: '' @ link)]
           \<and> \<not> list_ex isComment pre"
      by blast
  qed
qed

theorem fetch_or_checkout_failure_posts_comment_witness:
  "CallFetch \<in> set (fst (newGitHubEnv fetchFailsWorld (LoggerHandle 0) ''/github/workflow/event.json''))
   \<and> git_FetchContext fetchFailsWorld = Some (ExternalError ''connection refused'')
   \<and> ExternalError ''connection refused'' \<noteq> NoErrAlreadyUpToDate
   \<and> Issues_CreateComment fetchFailsWorld = Some (ExternalError ''401 Bad credentials'')
   \<and> snd (newGitHubEnv fetchFailsWorld (LoggerHandle 0) ''/github/workflow/event.json'') =
       Fail (Wrap (ExternalError ''connection refused'')
              (''posting a comment for `checkout` command execution error; postComment err:''
               @ ''posting err: 401 Bad credentials''))
   \<and> Error (Wrap (ExternalError ''connection refused'')
              (''posting a comment for `checkout` command execution error; postComment err:''
               @ ''posting err: 401 Bad credentials'')) =
       ''posting a comment for `checkout` command execution error; postComment err:''
       @ ''posting err: 401 Bad credentials: connection refused''
   \<and> CallCheckout ''pull/42/head:pullrequest''
       \<in> set (fst (newGitHubEnv checkoutFailsWorld (LoggerHandle 0) ''/github/workflow/event.json''))
   \<and> git_Checkout checkoutFailsWorld = Some (ExternalError ''reference not found'')
   \<and> Issues_CreateComment checkoutFailsWorld = None
   \<and> snd (newGitHubEnv checkoutFailsWorld (LoggerHandle 0) ''/github/workflow/event.json'') =
       Fail (ExternalError ''reference not found'')"
proof -
  have f: "CallFetch \<in> set (fst (newGitHubEnv fetchFailsWorld (LoggerHandle 0) ''/github/workflow/event.json''))"
    by (simp add: fetchFailsWorld_def example_defs)
  have fe: "git_FetchContext fetchFailsWorld = Some (ExternalError ''connection refused'')"
    and fc: "Issues_CreateComment fetchFailsWorld = Some (ExternalError ''401 Bad credentials'')"
    by (simp_all add: fetchFailsWorld_def exampleWorld_def)
  have c: "CallCheckout ''pull/42/head:pullrequest''
       \<in> set (fst (newGitHubEnv checkoutFailsWorld (LoggerHandle 0) ''/github/workflow/event.json''))"
    by (simp add: checkoutFailsWorld_def example_defs)
  have ce: "git_Checkout checkoutFailsWorld = Some (ExternalError ''reference not found'')"
    and cc: "Issues_CreateComment checkoutFailsWorld = None"
    by (simp_all add: checkoutFailsWorld_def exampleWorld_def)
  from fetch_or_checkout_failure_posts_comment
         [of fetchFailsWorld "LoggerHandle 0" "''/github/workflow/event.json''"
             "ExternalError ''connection refused''"]
       f fe fc
  have 1: "snd (newGitHubEnv fetchFailsWorld (LoggerHandle 0) ''/github/workflow/event.json'') =
       Fail (Wrap (ExternalError ''connection refused'')
              (''posting a comment for `checkout` command execution error; postComment err:''
               @ ''posting err: 401 Bad credentials''))"
    by simp
  from fetch_or_checkout_failure_posts_comment
         [of checkoutFailsWorld "LoggerHandle 0" "''/github/workflow/event.json''"
             "ExternalError ''reference not found''" "''pull/42/head:pullrequest''"]
       c ce cc
  have 2: "snd (newGitHubEnv checkoutFailsWorld (LoggerHandle 0) ''/github/workflow/event.json'') =
       Fail (ExternalError ''reference not found'')"
    by simp
  from f fe fc c ce cc 1 2 show ?thesis by simp
qed

text \<open>
  Claim C4. A fetch that answers \<open>NoErrAlreadyUpToDate\<close> counts as a success: the
  checkout is called, the run is the run of the world whose fetch returns no error,
  and when the checkout succeeds the construction succeeds, without a comment.
\<close>

theorem fetch_already_up_to_date_is_success:
  assumes "CallFetch \<in> set (fst (newGitHubEnv w lg path))"
    and "git_FetchContext w = Some NoErrAlreadyUpToDate"
  shows "(\<exists>branch. CallCheckout branch \<in> set (fst (newGitHubEnv w lg path)))
         \<and> newGitHubEnv w lg path = newGitHubEnv (w\<lparr>git_FetchContext := None\<rparr>) lg path
         \<and> (git_Checkout w = None \<longrightarrow>
              (\<exists>g. snd (newGitHubEnv w lg path) = Return g)
              \<and> \<not> list_ex isComment (fst (newGitHubEnv w lg path)))"
proof -
  from assms(1) newGitHubEnv_spine [of w lg path] obtain ws name url dir g issue number
    where tr: "fst (newGitHubEnv w lg path) =
          [CallReadFile path, CallChdir ws, CallPlainClone name url,
           CallReadFile ''/github/home/commentMonitor/REGEX'',
           CallReadFile ''/github/home/commentMonitor/RACE'',
           CallReadFile ''/github/home/commentMonitor/BRANCH'',
           CallChdir dir, CallSetenv ''GO111MODULE'' ''on'', CallSetenv ''CGO_ENABLED'' ''0'',
           CallWorktree] @ fst (fetchAndCheckout w g issue)"
      and res: "snd (newGitHubEnv w lg path) = snd (fetchAndCheckout w g issue)"
      and num: "deref_IssueNumber issue = Some number"
    by blast
  from assms(2) have ok: "git_FetchContext w = None \<or> git_FetchContext w = Some NoErrAlreadyUpToDate"
    by simp
  note t = fetchAndCheckout_fetch_ok [OF ok num, of g]
  have 1: "\<exists>branch. CallCheckout branch \<in> set (fst (newGitHubEnv w lg path))"
    by (cases "git_Checkout w") (auto simp: tr t)
  have 2: "newGitHubEnv w lg path = newGitHubEnv (w\<lparr>git_FetchContext := None\<rparr>) lg path"
    using assms(2)
    by (simp add: newGitHubEnv_def newGitHubClient_def fetchAndCheckout_up_to_date Let_def
        cong: sum.case_cong option.case_cong event.case_cong)
  have 3: "git_Checkout w = None \<longrightarrow>
              (\<exists>g. snd (newGitHubEnv w lg path) = Return g)
              \<and> \<not> list_ex isComment (fst (newGitHubEnv w lg path))"
    by (simp add: tr res t isComment_def)
  from 1 2 3 show ?thesis by blast
qed

theorem fetch_already_up_to_date_is_success_witness:
  "CallFetch \<in> set (fst (newGitHubEnv upToDateWorld (LoggerHandle 0) ''/github/workflow/event.json''))
   \<and> git_FetchContext upToDateWorld = Some NoErrAlreadyUpToDate
   \<and> git_Checkout upToDateWorld = None
   \<and> newGitHubEnv upToDateWorld (LoggerHandle 0) ''/github/workflow/event.json'' =
       (exampleCalls @ [CallCheckout ''pull/42/head:pullrequest''], Return exampleGitHub)"
proof -
  have h1: "CallFetch \<in> set (fst (newGitHubEnv upToDateWorld (LoggerHandle 0) ''/github/workflow/event.json''))"
    by (simp add: upToDateWorld_def example_defs)
  have h2: "git_FetchContext upToDateWorld = Some NoErrAlreadyUpToDate"
    and h3: "git_Checkout upToDateWorld = None"
    by (simp_all add: upToDateWorld_def exampleWorld_def)
  have e: "upToDateWorld\<lparr>git_FetchContext := None\<rparr> = exampleWorld"
    by (simp add: upToDateWorld_def exampleWorld_def)
  have r: "newGitHubEnv exampleWorld (LoggerHandle 0) ''/github/workflow/event.json'' =
     (exampleCalls @ [CallCheckout ''pull/42/head:pullrequest''], Return exampleGitHub)"
    by (simp add: example_defs)
  from fetch_already_up_to_date_is_success [OF h1 h2] have
    "newGitHubEnv upToDateWorld (LoggerHandle 0) ''/github/workflow/event.json'' =
     newGitHubEnv (upToDateWorld\<lparr>git_FetchContext := None\<rparr>) (LoggerHandle 0) ''/github/workflow/event.json''"
    by blast
  with h1 h2 h3 e r show ?thesis by simp
qed

text \<open>
  Claim C10. In an environment that \<open>newGitHubEnv\<close> has returned, \<open>IsRaceEnabled\<close> is
  false exactly when the file \<open>/github/home/commentMonitor/RACE\<close> holds the bytes
  \<open>-no-race\<close> and nothing else; with a newline after them, or with an empty file, it
  is true.
\<close>

theorem race_flag_file:
  assumes "snd (newGitHubEnv w lg path) = Return g"
  shows "(IsRaceEnabled g = False) =
           (ioutil_ReadFile w ''/github/home/commentMonitor/RACE'' = Inr ''-no-race'')
         \<and> (ioutil_ReadFile w ''/github/home/commentMonitor/RACE'' = Inr (''-no-race'' @ [nl])
              \<longrightarrow> IsRaceEnabled g)
         \<and> (ioutil_ReadFile w ''/github/home/commentMonitor/RACE'' = Inr [] \<longrightarrow> IsRaceEnabled g)"
proof -
  from assms newGitHubEnv_spine [of w lg path] obtain g' issue
    where res: "snd (newGitHubEnv w lg path) = snd (fetchAndCheckout w g' issue)"
      and race: "isRaceEnabled g' =
            (ioutil_ReadFile w ''/github/home/commentMonitor/RACE'' \<noteq> Inr ''-no-race'')"
    by auto
  from assms res have "g = g'"
    by (simp add: fetchAndCheckout_Return)
  with race show ?thesis
    by (auto simp: IsRaceEnabled_def)
qed

theorem race_flag_file_witness:
  "snd (newGitHubEnv (raceWorld ''-no-race'') (LoggerHandle 0) ''/github/workflow/event.json'') =
     Return exampleGitHub
   \<and> IsRaceEnabled exampleGitHub = False
   \<and> snd (newGitHubEnv (raceWorld (''-no-race'' @ [nl])) (LoggerHandle 0) ''/github/workflow/event.json'') =
     Return (exampleGitHub\<lparr>isRaceEnabled := True\<rparr>)
   \<and> ioutil_ReadFile (raceWorld (''-no-race'' @ [nl])) ''/github/home/commentMonitor/RACE'' =
     Inr (''-no-race'' @ [nl])
   \<and> IsRaceEnabled (exampleGitHub\<lparr>isRaceEnabled := True\<rparr>)
   \<and> snd (newGitHubEnv (raceWorld []) (LoggerHandle 0) ''/github/workflow/event.json'') =
     Return (exampleGitHub\<lparr>isRaceEnabled := True\<rparr>)
   \<and> ioutil_ReadFile (raceWorld []) ''/github/home/commentMonitor/RACE'' = Inr []"
proof -
  have a: "snd (newGitHubEnv (raceWorld ''-no-race'') (LoggerHandle 0) ''/github/workflow/event.json'') =
     Return exampleGitHub"
    by (simp add: raceWorld_run exampleGitHub_def)
  have b: "snd (newGitHubEnv (raceWorld (''-no-race'' @ [nl])) (LoggerHandle 0) ''/github/workflow/event.json'') =
     Return (exampleGitHub\<lparr>isRaceEnabled := True\<rparr>)"
    by (simp add: raceWorld_run)
  have c: "snd (newGitHubEnv (raceWorld []) (LoggerHandle 0) ''/github/workflow/event.json'') =
     Return (exampleGitHub\<lparr>isRaceEnabled := True\<rparr>)"
    by (simp add: raceWorld_run)
  have f: "ioutil_ReadFile (raceWorld content) ''/github/home/commentMonitor/RACE'' = Inr content"
    for content
    by (simp add: raceWorld_def)
  from race_flag_file [OF a] race_flag_file [OF b] race_flag_file [OF c] a b c f
  show ?thesis by simp
qed

end
